theory Spec2Isabelle
  imports Complex_Main
begin

section \<open>JavaScript numbers\<close>

text \<open>
  The program computes on JavaScript numbers. A finite number is modelled by the real it
  denotes (no rounding, no overflow), and \<open>NaN\<close> is kept as a value of its own, because the
  code produces it and every arithmetic operation, \<open>Math.max\<close>, \<open>Math.min\<close> and
  \<open>Math.round\<close> pass it on, while every comparison with it is false.
  The infinities occur in the source only as the initial fill of the \<open>mins\<close> and \<open>maxs\<close>
  arrays of the normaliser; they are treated there.
\<close>

datatype jsnum = Num real | NaN

fun js_add :: "jsnum \<Rightarrow> jsnum \<Rightarrow> jsnum" where
  "js_add (Num a) (Num b) = Num (a + b)"
| "js_add _ _ = NaN"

fun js_sub :: "jsnum \<Rightarrow> jsnum \<Rightarrow> jsnum" where
  "js_sub (Num a) (Num b) = Num (a - b)"
| "js_sub _ _ = NaN"

fun js_mul :: "jsnum \<Rightarrow> jsnum \<Rightarrow> jsnum" where
  "js_mul (Num a) (Num b) = Num (a * b)"
| "js_mul _ _ = NaN"

text \<open>\<open>a <= b\<close> and \<open>a > b\<close>: false as soon as one side is \<open>NaN\<close>.\<close>

fun js_le :: "jsnum \<Rightarrow> jsnum \<Rightarrow> bool" where
  "js_le (Num a) (Num b) = (a \<le> b)"
| "js_le _ _ = False"

fun js_gt :: "jsnum \<Rightarrow> jsnum \<Rightarrow> bool" where
  "js_gt (Num a) (Num b) = (a > b)"
| "js_gt _ _ = False"

text \<open>\<open>Math.round\<close> rounds to the nearest integer, a half upwards.\<close>

fun Math_round :: "jsnum \<Rightarrow> jsnum" where
  "Math_round (Num x) = Num (of_int \<lfloor>x + 1 / 2\<rfloor>)"
| "Math_round NaN = NaN"

fun Math_max :: "jsnum \<Rightarrow> jsnum \<Rightarrow> jsnum" where
  "Math_max (Num a) (Num b) = Num (max a b)"
| "Math_max _ _ = NaN"

fun Math_min :: "jsnum \<Rightarrow> jsnum \<Rightarrow> jsnum" where
  "Math_min (Num a) (Num b) = Num (min a b)"
| "Math_min _ _ = NaN"

text \<open>
  \<open>indices.length > 0 ? Math.max(...indices) : 0\<close>, the last step of both aggregation
  functions: \<open>Math.max\<close> of a non-empty argument list, and 0 for the empty one.
\<close>

fun max_of_indices :: "jsnum list \<Rightarrow> jsnum" where
  "max_of_indices [] = Num 0"
| "max_of_indices (x # xs) = foldl Math_max x xs"

section \<open>The AQI calculator of the direct-reading path (backend/utils/aqiCalculator.js)\<close>

definition linearScale :: "jsnum \<Rightarrow> real \<Rightarrow> real \<Rightarrow> real \<Rightarrow> real \<Rightarrow> jsnum" where
  "linearScale concentration minConc maxConc minAQI maxAQI =
     Math_round
       (js_add (js_mul (Num ((maxAQI - minAQI) / (maxConc - minConc)))
                       (js_sub concentration (Num minConc)))
               (Num minAQI))"

definition calculatePM25Index :: "jsnum \<Rightarrow> jsnum" where
  "calculatePM25Index pm25 =
     (if js_le pm25 (Num 12.0) then linearScale pm25 0 12.0 0 50
      else if js_le pm25 (Num 35.4) then linearScale pm25 12.1 35.4 51 100
      else if js_le pm25 (Num 55.4) then linearScale pm25 35.5 55.4 101 150
      else if js_le pm25 (Num 150.4) then linearScale pm25 55.5 150.4 151 200
      else if js_le pm25 (Num 250.4) then linearScale pm25 150.5 250.4 201 300
      else if js_le pm25 (Num 350.4) then linearScale pm25 250.5 350.4 301 400
      else linearScale pm25 350.5 500.4 401 500)"

definition calculatePM10Index :: "jsnum \<Rightarrow> jsnum" where
  "calculatePM10Index pm10 =
     (if js_le pm10 (Num 54) then linearScale pm10 0 54 0 50
      else if js_le pm10 (Num 154) then linearScale pm10 55 154 51 100
      else if js_le pm10 (Num 254) then linearScale pm10 155 254 101 150
      else if js_le pm10 (Num 354) then linearScale pm10 255 354 151 200
      else if js_le pm10 (Num 424) then linearScale pm10 355 424 201 300
      else if js_le pm10 (Num 504) then linearScale pm10 425 504 301 400
      else linearScale pm10 505 604 401 500)"

definition calculateO3Index :: "jsnum \<Rightarrow> jsnum" where
  "calculateO3Index o3 =
     (if js_le o3 (Num 54) then linearScale o3 0 54 0 50
      else if js_le o3 (Num 70) then linearScale o3 55 70 51 100
      else if js_le o3 (Num 85) then linearScale o3 71 85 101 150
      else if js_le o3 (Num 105) then linearScale o3 86 105 151 200
      else if js_le o3 (Num 200) then linearScale o3 106 200 201 300
      else linearScale o3 201 504 301 500)"

definition calculateCOIndex :: "jsnum \<Rightarrow> jsnum" where
  "calculateCOIndex co =
     (if js_le co (Num 1.0) then linearScale co 0 1.0 0 50
      else if js_le co (Num 2.0) then linearScale co 1.1 2.0 51 100
      else if js_le co (Num 4.4) then linearScale co 2.1 4.4 101 150
      else if js_le co (Num 9.4) then linearScale co 4.5 9.4 151 200
      else if js_le co (Num 12.4) then linearScale co 9.5 12.4 201 300
      else linearScale co 12.5 15.4 301 500)"

definition calculateSO2Index :: "jsnum \<Rightarrow> jsnum" where
  "calculateSO2Index so2 =
     (if js_le so2 (Num 35) then linearScale so2 0 35 0 50
      else if js_le so2 (Num 75) then linearScale so2 36 75 51 100
      else if js_le so2 (Num 185) then linearScale so2 76 185 101 150
      else if js_le so2 (Num 304) then linearScale so2 186 304 151 200
      else if js_le so2 (Num 604) then linearScale so2 305 604 201 300
      else if js_le so2 (Num 804) then linearScale so2 605 804 301 400
      else linearScale so2 805 1004 401 500)"

definition calculateNO2Index :: "jsnum \<Rightarrow> jsnum" where
  "calculateNO2Index no2 =
     (if js_le no2 (Num 53) then linearScale no2 0 53 0 50
      else if js_le no2 (Num 100) then linearScale no2 54 100 51 100
      else if js_le no2 (Num 360) then linearScale no2 101 360 101 150
      else if js_le no2 (Num 649) then linearScale no2 361 649 151 200
      else if js_le no2 (Num 1249) then linearScale no2 650 1249 201 300
      else if js_le no2 (Num 1649) then linearScale no2 1250 1649 301 400
      else linearScale no2 1650 2049 401 500)"

section \<open>The AQI functions of the forecast path (prediction controller)\<close>

text \<open>
  The prediction controller carries its own copies of the index functions and of
  \<open>linearScale\<close>, and its own aggregation function \<open>calculateAQIFromPollutants\<close>. The copies
  bear the source's names with the suffix \<open>_pred\<close>.
\<close>

definition linearScale_pred :: "jsnum \<Rightarrow> real \<Rightarrow> real \<Rightarrow> real \<Rightarrow> real \<Rightarrow> jsnum" where
  "linearScale_pred concentration minConc maxConc minAQI maxAQI =
     Math_round
       (js_add (js_mul (Num ((maxAQI - minAQI) / (maxConc - minConc)))
                       (js_sub concentration (Num minConc)))
               (Num minAQI))"

definition calculatePM25Index_pred :: "jsnum \<Rightarrow> jsnum" where
  "calculatePM25Index_pred pm25 =
     (if js_le pm25 (Num 12.0) then linearScale_pred pm25 0 12.0 0 50
      else if js_le pm25 (Num 35.4) then linearScale_pred pm25 12.1 35.4 51 100
      else if js_le pm25 (Num 55.4) then linearScale_pred pm25 35.5 55.4 101 150
      else if js_le pm25 (Num 150.4) then linearScale_pred pm25 55.5 150.4 151 200
      else if js_le pm25 (Num 250.4) then linearScale_pred pm25 150.5 250.4 201 300
      else if js_le pm25 (Num 350.4) then linearScale_pred pm25 250.5 350.4 301 400
      else linearScale_pred pm25 350.5 500.4 401 500)"

definition calculatePM10Index_pred :: "jsnum \<Rightarrow> jsnum" where
  "calculatePM10Index_pred pm10 =
     (if js_le pm10 (Num 54) then linearScale_pred pm10 0 54 0 50
      else if js_le pm10 (Num 154) then linearScale_pred pm10 55 154 51 100
      else if js_le pm10 (Num 254) then linearScale_pred pm10 155 254 101 150
      else if js_le pm10 (Num 354) then linearScale_pred pm10 255 354 151 200
      else if js_le pm10 (Num 424) then linearScale_pred pm10 355 424 201 300
      else if js_le pm10 (Num 504) then linearScale_pred pm10 425 504 301 400
      else linearScale_pred pm10 505 604 401 500)"

definition calculateO3Index_pred :: "jsnum \<Rightarrow> jsnum" where
  "calculateO3Index_pred o3 =
     (if js_le o3 (Num 54) then linearScale_pred o3 0 54 0 50
      else if js_le o3 (Num 70) then linearScale_pred o3 55 70 51 100
      else if js_le o3 (Num 85) then linearScale_pred o3 71 85 101 150
      else if js_le o3 (Num 105) then linearScale_pred o3 86 105 151 200
      else if js_le o3 (Num 200) then linearScale_pred o3 106 200 201 300
      else linearScale_pred o3 201 504 301 500)"

definition calculateCOIndex_pred :: "jsnum \<Rightarrow> jsnum" where
  "calculateCOIndex_pred co =
     (if js_le co (Num 4.4) then linearScale_pred co 0 4.4 0 50
      else if js_le co (Num 9.4) then linearScale_pred co 4.5 9.4 51 100
      else if js_le co (Num 12.4) then linearScale_pred co 9.5 12.4 101 150
      else if js_le co (Num 15.4) then linearScale_pred co 12.5 15.4 151 200
      else if js_le co (Num 30.4) then linearScale_pred co 15.5 30.4 201 300
      else if js_le co (Num 40.4) then linearScale_pred co 30.5 40.4 301 400
      else linearScale_pred co 40.5 50.4 401 500)"

definition calculateSO2Index_pred :: "jsnum \<Rightarrow> jsnum" where
  "calculateSO2Index_pred so2 =
     (if js_le so2 (Num 35) then linearScale_pred so2 0 35 0 50
      else if js_le so2 (Num 75) then linearScale_pred so2 36 75 51 100
      else if js_le so2 (Num 185) then linearScale_pred so2 76 185 101 150
      else if js_le so2 (Num 304) then linearScale_pred so2 186 304 151 200
      else if js_le so2 (Num 604) then linearScale_pred so2 305 604 201 300
      else if js_le so2 (Num 804) then linearScale_pred so2 605 804 301 400
      else linearScale_pred so2 805 1004 401 500)"

definition calculateNO2Index_pred :: "jsnum \<Rightarrow> jsnum" where
  "calculateNO2Index_pred no2 =
     (if js_le no2 (Num 53) then linearScale_pred no2 0 53 0 50
      else if js_le no2 (Num 100) then linearScale_pred no2 54 100 51 100
      else if js_le no2 (Num 360) then linearScale_pred no2 101 360 101 150
      else if js_le no2 (Num 649) then linearScale_pred no2 361 649 151 200
      else if js_le no2 (Num 1249) then linearScale_pred no2 650 1249 201 300
      else if js_le no2 (Num 1649) then linearScale_pred no2 1250 1649 301 400
      else linearScale_pred no2 1650 2049 401 500)"

section \<open>Aggregation over the pollutants of a reading\<close>

text \<open>
  The object handed to the aggregation functions. A field is \<open>None\<close> when the property is
  \<open>undefined\<close> or \<open>null\<close>; both functions skip such a field.
\<close>

record pollutants =
  pm25 :: "jsnum option"
  pm10 :: "jsnum option"
  o3 :: "jsnum option"
  no2 :: "jsnum option"
  so2 :: "jsnum option"
  co :: "jsnum option"

text \<open>One \<open>if (pollutants.x !== undefined && pollutants.x > 0) indices.push(f(pollutants.x))\<close>.\<close>

definition push_if_positive :: "(jsnum \<Rightarrow> jsnum) \<Rightarrow> jsnum option \<Rightarrow> jsnum list" where
  "push_if_positive f field =
     (case field of None \<Rightarrow> [] | Some v \<Rightarrow> if js_gt v (Num 0) then [f v] else [])"

text \<open>The array \<open>indices\<close> of \<open>calculateAQI\<close> after its six conditional pushes.\<close>

definition calculateAQI_indices :: "pollutants \<Rightarrow> jsnum list" where
  "calculateAQI_indices p =
     push_if_positive calculatePM25Index (pm25 p) @
     push_if_positive calculatePM10Index (pm10 p) @
     push_if_positive calculateO3Index (o3 p) @
     push_if_positive calculateCOIndex (co p) @
     push_if_positive calculateSO2Index (so2 p) @
     push_if_positive calculateNO2Index (no2 p)"

definition calculateAQI :: "pollutants \<Rightarrow> jsnum" where
  "calculateAQI p = max_of_indices (calculateAQI_indices p)"

text \<open>One \<open>if (pollutants.x !== undefined && pollutants.x !== null) indices.push(f(pollutants.x))\<close>.\<close>

definition push_if_present :: "(jsnum \<Rightarrow> jsnum) \<Rightarrow> jsnum option \<Rightarrow> jsnum list" where
  "push_if_present f field = (case field of None \<Rightarrow> [] | Some v \<Rightarrow> [f v])"

text \<open>The array \<open>indices\<close> of \<open>calculateAQIFromPollutants\<close> after its six conditional pushes.\<close>

definition calculateAQIFromPollutants_indices :: "pollutants \<Rightarrow> jsnum list" where
  "calculateAQIFromPollutants_indices p =
     push_if_present calculatePM25Index_pred (pm25 p) @
     push_if_present calculateO3Index_pred (o3 p) @
     push_if_present calculatePM10Index_pred (pm10 p) @
     push_if_present calculateCOIndex_pred (co p) @
     push_if_present calculateSO2Index_pred (so2 p) @
     push_if_present calculateNO2Index_pred (no2 p)"

definition calculateAQIFromPollutants :: "pollutants \<Rightarrow> jsnum" where
  "calculateAQIFromPollutants p = max_of_indices (calculateAQIFromPollutants_indices p)"

section \<open>The aggregation rule of the specification\<close>

text \<open>
  The specification's \<open>aggregate\<close>, in its own words: \<open>indexFor\<close> is computed for every
  pollutant present in the reading whose value is strictly greater than zero, and the result
  is the maximum sub-index found, or 0 if there is none. The rule is stated over a set of
  included pollutants, so that it can be read with the inclusion rule of the specification
  (\<open>measured\<close>) and with another one (\<open>present\<close>).
\<close>

datatype pollutant = PM25 | PM10 | O3 | CO | SO2 | NO2

fun field_of :: "pollutant \<Rightarrow> pollutants \<Rightarrow> jsnum option" where
  "field_of PM25 p = pm25 p"
| "field_of PM10 p = pm10 p"
| "field_of O3 p = o3 p"
| "field_of CO p = co p"
| "field_of SO2 p = so2 p"
| "field_of NO2 p = no2 p"

fun indexFor :: "pollutant \<Rightarrow> jsnum \<Rightarrow> jsnum" where
  "indexFor PM25 = calculatePM25Index"
| "indexFor PM10 = calculatePM10Index"
| "indexFor O3 = calculateO3Index"
| "indexFor CO = calculateCOIndex"
| "indexFor SO2 = calculateSO2Index"
| "indexFor NO2 = calculateNO2Index"

fun indexFor_pred :: "pollutant \<Rightarrow> jsnum \<Rightarrow> jsnum" where
  "indexFor_pred PM25 = calculatePM25Index_pred"
| "indexFor_pred PM10 = calculatePM10Index_pred"
| "indexFor_pred O3 = calculateO3Index_pred"
| "indexFor_pred CO = calculateCOIndex_pred"
| "indexFor_pred SO2 = calculateSO2Index_pred"
| "indexFor_pred NO2 = calculateNO2Index_pred"

definition measured :: "pollutants \<Rightarrow> pollutant set" where
  "measured p = {k. \<exists>v. field_of k p = Some v \<and> js_gt v (Num 0)}"

definition present :: "pollutants \<Rightarrow> pollutant set" where
  "present p = {k. \<exists>v. field_of k p = Some v}"

definition sub_index :: "(pollutant \<Rightarrow> jsnum \<Rightarrow> jsnum) \<Rightarrow> pollutants \<Rightarrow> pollutant \<Rightarrow> jsnum" where
  "sub_index ix p k = ix k (the (field_of k p))"

definition max_sub_index ::
  "(pollutant \<Rightarrow> jsnum \<Rightarrow> jsnum) \<Rightarrow> pollutant set \<Rightarrow> pollutants \<Rightarrow> jsnum \<Rightarrow> bool" where
  "max_sub_index ix included p r =
     (if included = {} then r = Num 0
      else (\<exists>k \<in> included. r = sub_index ix p k)
         \<and> (\<forall>k \<in> included. js_le (sub_index ix p k) r))"

text \<open>A reading all of whose present values are numbers, and one whose present values are non-negative numbers.\<close>

definition all_numbers :: "pollutants \<Rightarrow> bool" where
  "all_numbers p = (\<forall>k. field_of k p \<noteq> Some NaN)"

definition all_non_negative :: "pollutants \<Rightarrow> bool" where
  "all_non_negative p = (\<forall>k. \<forall>v. field_of k p = Some v \<longrightarrow> js_le (Num 0) v)"

section \<open>JavaScript values\<close>

text \<open>
  \<open>a / b\<close>. A zero divisor gives an infinity or \<open>NaN\<close> in JavaScript; the infinities are not
  values of this model, and no division of the modelled code has a zero divisor: each divisor
  is a literal, the length of an array of at least 24 points (or that length minus one), a
  bucket count that the code has tested against 0, or \<open>maxs[i] - mins[i]\<close> behind the test
  \<open>mins[i] === maxs[i]\<close>.
\<close>

fun js_div :: "jsnum \<Rightarrow> jsnum \<Rightarrow> jsnum" where
  "js_div (Num a) (Num b) = (if b = 0 then NaN else Num (a / b))"
| "js_div _ _ = NaN"

text \<open>
  The values that can reach the pipeline from outside: the body of the predictor's reply is
  whatever JSON the remote service sends.
\<close>

datatype jsval =
    Undefined
  | Null
  | Bool bool
  | Number jsnum
  | String string
  | Array "jsval list"
  | Object "(string \<times> jsval) list"

text \<open>
  \<open>ToNumber\<close>, the conversion that \<open>*\<close> and \<open>-\<close> apply to an operand. An array is converted
  through its string form, the elements joined by commas: the empty array gives the empty
  string and so 0, an array of one element gives what the string form of that element gives
  (\<open>null\<close> and \<open>undefined\<close> print as the empty string), and a longer array gives a string with
  a comma, which is no numeric literal. The number denoted by a string is a parameter.
\<close>

fun toNumber :: "(string \<Rightarrow> jsnum) \<Rightarrow> jsval \<Rightarrow> jsnum" where
  "toNumber sn Undefined = NaN"
| "toNumber sn Null = Num 0"
| "toNumber sn (Bool b) = (if b then Num 1 else Num 0)"
| "toNumber sn (Number n) = n"
| "toNumber sn (String s) = sn s"
| "toNumber sn (Object kvs) = NaN"
| "toNumber sn (Array []) = Num 0"
| "toNumber sn (Array [Undefined]) = Num 0"
| "toNumber sn (Array [Null]) = Num 0"
| "toNumber sn (Array [Bool b]) = NaN"
| "toNumber sn (Array [Number n]) = n"
| "toNumber sn (Array [String s]) = sn s"
| "toNumber sn (Array [Object kvs]) = NaN"
| "toNumber sn (Array [Array ys]) = toNumber sn (Array ys)"
| "toNumber sn (Array (x # y # zs)) = NaN"

text \<open>Truthiness, \<open>typeof v === 'object'\<close>, \<open>Array.isArray\<close> and the read of a property.\<close>

fun truthy :: "jsval \<Rightarrow> bool" where
  "truthy Undefined = False"
| "truthy Null = False"
| "truthy (Bool b) = b"
| "truthy (Number n) = (n \<noteq> NaN \<and> n \<noteq> Num 0)"
| "truthy (String s) = (s \<noteq> [])"
| "truthy (Array xs) = True"
| "truthy (Object kvs) = True"

fun typeof_object :: "jsval \<Rightarrow> bool" where
  "typeof_object Null = True"
| "typeof_object (Array xs) = True"
| "typeof_object (Object kvs) = True"
| "typeof_object _ = False"

fun isArray :: "jsval \<Rightarrow> bool" where
  "isArray (Array xs) = True"
| "isArray _ = False"

text \<open>
  \<open>v.name\<close> on a value that is an object and no array; of a key given twice the parser keeps
  the last value.
\<close>

fun property :: "jsval \<Rightarrow> string \<Rightarrow> jsval" where
  "property (Object kvs) name = (case map_of (rev kvs) name of None \<Rightarrow> Undefined | Some v \<Rightarrow> v)"
| "property _ name = Undefined"

text \<open>What a \<open>throw\<close> or a failing call raises.\<close>

datatype js_error = TypeError | Error string | AxiosError

section \<open>Series and padding (makePrediction, first step)\<close>

type_synonym point = "real list"
type_synonym series = "point list"

text \<open>
  A series is what \<open>processSensorData\<close> and \<open>processOpenAQData\<close> build: an array of arrays of
  finite numbers (both replace a missing or \<open>NaN\<close> entry by 0).

  \<open>for (let i = 0; i < paddingNeeded; i++) processedData.unshift([...paddingValue])\<close>, as a
  function of the content of the array \<open>processedData\<close>.
\<close>

fun unshift_copies :: "nat \<Rightarrow> point \<Rightarrow> series \<Rightarrow> series" where
  "unshift_copies 0 paddingValue processedData = processedData"
| "unshift_copies (Suc n) paddingValue processedData =
     unshift_copies n paddingValue (paddingValue # processedData)"

definition pad :: "series \<Rightarrow> series" where
  "pad processedData =
     (let minRequiredDataPoints = 24 in
      if length processedData < minRequiredDataPoints then
        let paddingNeeded = minRequiredDataPoints - length processedData;
            paddingValue = (if length processedData > 0 then processedData ! 0
                            else [0, 0, 0, 0, 0, 0])
        in unshift_copies paddingNeeded paddingValue processedData
      else processedData)"

section \<open>Normalisation (normalizeData, denormalizeData)\<close>

text \<open>
  \<open>mins[i]\<close> and \<open>maxs[i]\<close> after the two nested \<open>forEach\<close> loops, for a feature
  \<open>i < data[0].length\<close> of a non-empty \<open>data\<close>. The arrays start filled with \<open>Infinity\<close> and
  \<open>-Infinity\<close>; the first point has the feature, and \<open>Math.min(Infinity, v) = v\<close>, so the fold
  starts from the first point's value and goes on over the other points that have the
  feature.
\<close>

definition feature_min :: "series \<Rightarrow> nat \<Rightarrow> real" where
  "feature_min data i =
     fold (\<lambda>point m. if i < length point then min m (point ! i) else m) (tl data) (hd data ! i)"

definition feature_max :: "series \<Rightarrow> nat \<Rightarrow> real" where
  "feature_max data i =
     fold (\<lambda>point m. if i < length point then max m (point ! i) else m) (tl data) (hd data ! i)"

text \<open>
  \<open>point.map((val, i) => ...)\<close> of \<open>normalizeData\<close>. A point longer than the first one has
  features \<open>i >= numFeatures\<close>; for them \<open>mins[i]\<close> is \<open>Math.min(undefined, val)\<close>, that is
  \<open>NaN\<close>, the test \<open>mins[i] === maxs[i]\<close> is false and the quotient is \<open>NaN\<close>.
\<close>

definition normalizePoint :: "series \<Rightarrow> point \<Rightarrow> jsnum list" where
  "normalizePoint data point =
     map (\<lambda>i. let val = point ! i in
            if i < length (hd data) then
              (if feature_min data i = feature_max data i then Num 0
               else js_div (Num (val - feature_min data i))
                           (Num (feature_max data i - feature_min data i)))
            else NaN)
         [0..<length point]"

definition normalizeData :: "series \<Rightarrow> js_error + jsnum list list" where
  "normalizeData data =
     (case data of
        [] \<Rightarrow> Inl TypeError
      | p0 # ps \<Rightarrow> Inr (map (normalizePoint data) data))"

text \<open>
  \<open>point.slice(0, numFeatures).map((val, i) => ...)\<close> of \<open>denormalizeData\<close>, on the elements
  of one predicted point.
\<close>

definition denormalizePoint :: "(string \<Rightarrow> jsnum) \<Rightarrow> series \<Rightarrow> jsval list \<Rightarrow> jsnum list" where
  "denormalizePoint sn originalData point =
     (let sliced = take (length (hd originalData)) point in
      map (\<lambda>i. let val = sliced ! i in
             if feature_min originalData i = feature_max originalData i
             then Num (feature_min originalData i)
             else
               let denormalized =
                     js_add (js_mul (toNumber sn val)
                                    (Num (feature_max originalData i - feature_min originalData i)))
                            (Num (feature_min originalData i))
               in Math_max (Num 0) (Math_min denormalized (Num (feature_max originalData i * 2))))
          [0..<length sliced])"

text \<open>
  \<open>denormalizeData\<close> raises a \<open>TypeError\<close> when \<open>originalData\<close> is empty
  (\<open>originalData[0].length\<close>), when \<open>normalizedData\<close> has no \<open>map\<close>, that is, is no array, and
  when one of its points is no array: a string has \<open>slice\<close> but its result has no \<open>map\<close>, and
  the other values have no \<open>slice\<close>.
\<close>

definition denormalizeData ::
  "(string \<Rightarrow> jsnum) \<Rightarrow> jsval \<Rightarrow> series \<Rightarrow> js_error + jsnum list list" where
  "denormalizeData sn normalizedData originalData =
     (case originalData of
        [] \<Rightarrow> Inl TypeError
      | p0 # ps \<Rightarrow>
         (case normalizedData of
            Array points \<Rightarrow>
              if list_all isArray points
              then Inr (map (\<lambda>point. case point of
                                        Array vals \<Rightarrow> denormalizePoint sn originalData vals
                                      | _ \<Rightarrow> [])
                            points)
              else Inl TypeError
          | _ \<Rightarrow> Inl TypeError))"

text \<open>An array of arrays of numbers as a value.\<close>

definition array_of_points :: "jsnum list list \<Rightarrow> jsval" where
  "array_of_points points = Array (map (\<lambda>point. Array (map Number point)) points)"

section \<open>The fallback forecaster (generateFallbackPrediction, extractDailyPatterns)\<close>

text \<open>
  The read of an element in an arithmetic expression: an index out of range reads
  \<open>undefined\<close>, which arithmetic converts to \<open>NaN\<close>.
\<close>

definition elem :: "jsnum list \<Rightarrow> nat \<Rightarrow> jsnum" where
  "elem xs i = (if i < length xs then xs ! i else NaN)"

definition elem_of_point :: "point \<Rightarrow> nat \<Rightarrow> jsnum" where
  "elem_of_point xs i = (if i < length xs then Num (xs ! i) else NaN)"

text \<open>\<open>ToNumber\<close> of an array of numbers (\<open>toNumber\<close> above, on such an array).\<close>

fun numbers_toNumber :: "jsnum list \<Rightarrow> jsnum" where
  "numbers_toNumber [] = Num 0"
| "numbers_toNumber [n] = n"
| "numbers_toNumber (n # m # ns) = NaN"

text \<open>
  \<open>recentData\<close> and \<open>dataToUse\<close>: the last 72 points, or, if these are fewer than 24, 24
  points taken cyclically from \<open>processedData\<close> (\<open>processedData[i % 0]\<close> is \<open>undefined\<close>, hence
  the zero point for an empty series).
\<close>

definition dataToUse_of :: "series \<Rightarrow> series" where
  "dataToUse_of processedData =
     (let recentData = drop (length processedData - 72) processedData in
      if length recentData \<ge> 24 then recentData
      else map (\<lambda>i. if length processedData = 0 then [0, 0, 0, 0, 0, 0]
                     else processedData ! (i mod length processedData))
               [0..<24])"

text \<open>
  \<open>averages[i]\<close> and \<open>trends[j]\<close> after their loops, for a feature below \<open>numPollutants\<close> (the
  only ones read afterwards).
\<close>

definition averages :: "series \<Rightarrow> nat \<Rightarrow> real" where
  "averages dataToUse i =
     fold (\<lambda>point a. if i < length point then a + point ! i / real (length dataToUse) else a)
          dataToUse 0"

definition trends :: "series \<Rightarrow> nat \<Rightarrow> jsnum" where
  "trends dataToUse j =
     fold (\<lambda>i t. if j < length (dataToUse ! i)
                  then js_add t (js_div (js_sub (Num (dataToUse ! i ! j))
                                                (elem_of_point (dataToUse ! (i - 1)) j))
                                        (Num (real (length dataToUse - 1))))
                  else t)
          [1..<length dataToUse] (Num 0)"

text \<open>
  \<open>extractDailyPatterns\<close>. The points whose index is \<open>hour\<close> modulo 24, their number
  \<open>hourlyCount[hour]\<close>, and the row \<open>hourlyAverages[hour]\<close> after the accumulation loop: it
  starts as \<open>numPollutants\<close> zeros and holds the sums of the bucket; a point longer than
  \<open>numPollutants\<close> extends the row by \<open>undefined + val\<close>, that is \<open>NaN\<close>.
\<close>

definition bucket :: "series \<Rightarrow> nat \<Rightarrow> point list" where
  "bucket data hour = map (\<lambda>idx. data ! idx) (filter (\<lambda>idx. idx mod 24 = hour) [0..<length data])"

definition hourlyCount :: "series \<Rightarrow> nat \<Rightarrow> nat" where
  "hourlyCount data hour = length (bucket data hour)"

definition hourlyAverages :: "series \<Rightarrow> nat \<Rightarrow> jsnum list" where
  "hourlyAverages data hour =
     (let numPollutants = length (data ! 0);
          width = fold (\<lambda>point w. max w (length point)) (bucket data hour) numPollutants
      in map (\<lambda>i. if i < numPollutants
                   then Num (fold (\<lambda>point t. if i < length point then t + point ! i else t)
                                  (bucket data hour) 0)
                   else NaN)
             [0..<width])"

text \<open>
  \<open>extractDailyPatterns\<close> is called on \<open>dataToUse\<close> only, which has at least 24 points, so
  that \<open>data[0]\<close> exists and every hour has a point.

  The final \<open>map\<close> of \<open>extractDailyPatterns\<close>. The subtrahend \<open>hourlyAverages[i]\<close> is the row of
  the hour \<open>i\<close>, an array (\<open>undefined\<close> for \<open>i >= 24\<close>), which \<open>-\<close> converts to a number.
\<close>

definition extractDailyPatterns :: "series \<Rightarrow> jsnum list list" where
  "extractDailyPatterns data =
     map (\<lambda>hour.
            map (\<lambda>i. let total = hourlyAverages data hour ! i in
                   if hourlyCount data hour = 0 then Num 0
                   else
                     let hourlyAverage = js_div total (Num (real (hourlyCount data hour)))
                     in js_sub hourlyAverage
                          (if i < 24 then numbers_toNumber (hourlyAverages data i) else NaN))
                [0..<length (hourlyAverages data hour)])
         [0..<24]"

text \<open>
  A forecast point \<open>{aqi, pollutants: {pm25, pm10, o3, no2, so2, co}}\<close>, and the destructuring
  \<open>const [pm25, pm10, o3, no2, so2, co] = array\<close>, which leaves a name \<open>undefined\<close> when the
  array is too short.
\<close>

record forecast_point =
  aqi :: jsnum
  pollutants :: pollutants

definition nth_or_undefined :: "jsnum list \<Rightarrow> nat \<Rightarrow> jsnum option" where
  "nth_or_undefined xs i = (if i < length xs then Some (xs ! i) else None)"

definition destructure :: "jsnum list \<Rightarrow> pollutants" where
  "destructure xs =
     \<lparr>pm25 = nth_or_undefined xs 0, pm10 = nth_or_undefined xs 1, o3 = nth_or_undefined xs 2,
      no2 = nth_or_undefined xs 3, so2 = nth_or_undefined xs 4, co = nth_or_undefined xs 5\<rparr>"

text \<open>
  The inner loop of \<open>generateFallbackPrediction\<close> for one \<open>hour\<close>. \<open>hours\<close> is what
  \<open>new Date().getHours()\<close> returns during the call, and \<open>rnd k\<close> is what the \<open>k\<close>-th call of
  \<open>Math.random()\<close> returns; the loop draws one number for each hour and feature, in that
  order.
\<close>

definition predictedPollutants ::
  "nat \<Rightarrow> (nat \<Rightarrow> real) \<Rightarrow> series \<Rightarrow> jsnum list list option \<Rightarrow> nat \<Rightarrow> jsnum list" where
  "predictedPollutants hours rnd dataToUse dailyPatterns hour =
     (let numPollutants = length (dataToUse ! 0) in
      map (\<lambda>i.
             let base = js_add (Num (averages dataToUse i))
                               (js_mul (trends dataToUse i) (Num (real hour)));
                 prediction =
                   (case dailyPatterns of
                      None \<Rightarrow> base
                    | Some patterns \<Rightarrow>
                        let hourOfDay = (hours + hour) mod 24
                        in js_add base (elem (patterns ! hourOfDay) i));
                 variation =
                   js_mul prediction (Num (rnd (hour * numPollutants + i) * 0.1 - 0.05))
             in Math_max (Num 0) (js_add prediction variation))
          [0..<numPollutants])"

definition generateFallbackPrediction ::
  "nat \<Rightarrow> (nat \<Rightarrow> real) \<Rightarrow> series \<Rightarrow> forecast_point list" where
  "generateFallbackPrediction hours rnd processedData =
     (let dataToUse = dataToUse_of processedData;
          hasEnoughData = (length dataToUse \<ge> 24);
          dailyPatterns = (if hasEnoughData then Some (extractDailyPatterns dataToUse) else None)
      in map (\<lambda>hour.
                let p = destructure (predictedPollutants hours rnd dataToUse dailyPatterns hour)
                in \<lparr>aqi = calculateAQIFromPollutants p, pollutants = p\<rparr>)
             [0..<24])"

section \<open>The prediction pipeline (makePrediction)\<close>

text \<open>
  What \<open>fetchOpenWeatherData\<close> returns when it does not return \<open>null\<close>; a field is \<open>None\<close>
  when the property is \<open>undefined\<close>.
\<close>

record weatherData =
  temp :: "jsnum option"
  humidity :: "jsnum option"
  wind_speed :: "jsnum option"

definition push_feature :: "jsnum option \<Rightarrow> real \<Rightarrow> jsnum list list \<Rightarrow> jsnum list list" where
  "push_feature field scale result =
     (case field of
        None \<Rightarrow> result
      | Some v \<Rightarrow> map (\<lambda>point. point @ [js_div v (Num scale)]) result)"

definition addWeatherFeatures :: "jsnum list list \<Rightarrow> weatherData option \<Rightarrow> jsnum list list" where
  "addWeatherFeatures data w =
     (case w of
        None \<Rightarrow> data
      | Some weather \<Rightarrow>
          push_feature (wind_speed weather) 10
            (push_feature (humidity weather) 100
              (push_feature (temp weather) 100 data)))"

text \<open>
  The outcome of \<open>axios.post\<close>: the promise is rejected (no connection, a time-out, a status
  outside 2xx), or it resolves to a response, of which the code reads \<open>data\<close>.
\<close>

datatype response = Rejected | Response jsval

text \<open>
  What a call of \<open>makePrediction\<close> takes from its environment: the result of
  \<open>fetchOpenWeatherData\<close> (\<open>None\<close> for \<open>null\<close>), whether the API key is set, the predictor as a
  function of the \<open>past_values\<close> it is sent, the clock, the random numbers and the reading of
  a string as a number.
\<close>

record env =
  fetchOpenWeatherData :: "weatherData option"
  HF_API_KEY :: bool
  post :: "jsnum list list \<Rightarrow> response"
  getHours :: nat
  random :: "nat \<Rightarrow> real"
  stringToNumber :: "string \<Rightarrow> jsnum"

text \<open>One element of \<open>aqiPredictions\<close>.\<close>

definition aqiPrediction :: "jsnum list \<Rightarrow> forecast_point" where
  "aqiPrediction pollutants_row =
     (let p = destructure (map (\<lambda>val. Math_max (Num 0) val) (take 6 pollutants_row))
      in \<lparr>aqi = calculateAQIFromPollutants p, pollutants = p\<rparr>)"

definition convertPredictions :: "env \<Rightarrow> jsval \<Rightarrow> series \<Rightarrow> js_error + forecast_point list" where
  "convertPredictions e predictions processedData =
     (case denormalizeData (stringToNumber e) predictions processedData of
        Inl err \<Rightarrow> Inl err
      | Inr denormalizedPredictions \<Rightarrow> Inr (map aqiPrediction denormalizedPredictions))"

text \<open>
  The body of the \<open>try\<close> block after the padding, on the padded series: \<open>Inl\<close> is an exception
  that reaches the \<open>catch\<close>, \<open>Inr\<close> the value of \<open>return aqiPredictions\<close>.
\<close>

definition remotePrediction :: "env \<Rightarrow> series \<Rightarrow> js_error + forecast_point list" where
  "remotePrediction e processedData =
     (if \<not> HF_API_KEY e then Inl (Error ''Hugging Face API key missing'')
      else
        case normalizeData processedData of
          Inl err \<Rightarrow> Inl err
        | Inr normalizedData \<Rightarrow>
            let enhancedInput = addWeatherFeatures normalizedData (fetchOpenWeatherData e) in
            (case post e enhancedInput of
               Rejected \<Rightarrow> Inl AxiosError
             | Response data \<Rightarrow>
                 if \<not> truthy data \<or> \<not> typeof_object data
                 then Inl (Error ''Invalid response format from prediction API'')
                 else if isArray data then convertPredictions e data processedData
                 else if truthy (property data ''predictions'')
                 then convertPredictions e (property data ''predictions'') processedData
                 else Inl (Error ''Unrecognized prediction API response format'')))"

text \<open>
  \<open>makePrediction\<close>. The argument is the content of the caller's array \<open>processedData\<close>; the
  padding loop changes that array in place with \<open>unshift\<close>, and nothing after it writes to
  it (\<open>normalizeData\<close>, \<open>denormalizeData\<close> and \<open>generateFallbackPrediction\<close> build new
  arrays with \<open>map\<close> and \<open>slice\<close>, \<open>addWeatherFeatures\<close> pushes onto copies). The result is the
  content of the caller's array after the call, and the value returned.
\<close>

definition makePrediction :: "env \<Rightarrow> series \<Rightarrow> series \<times> forecast_point list" where
  "makePrediction e processedData =
     (let padded = pad processedData in
      (padded,
       case remotePrediction e padded of
         Inl error \<Rightarrow> generateFallbackPrediction (getHours e) (random e) padded
       | Inr aqiPredictions \<Rightarrow> aqiPredictions))"

section \<open>The specification's words for the pipeline\<close>


text \<open>
  The daily pattern as the specification words it: for the bucket of an hour of the day, the
  average deviation of the bucket's points from the overall mean of the window, per feature.
\<close>

definition overall_mean :: "series \<Rightarrow> nat \<Rightarrow> real" where
  "overall_mean window i = sum_list (map (\<lambda>point. point ! i) window) / real (length window)"

definition daily_pattern_spec :: "series \<Rightarrow> nat \<Rightarrow> nat \<Rightarrow> real" where
  "daily_pattern_spec window hour i =
     sum_list (map (\<lambda>point. point ! i - overall_mean window i) (bucket window hour))
       / real (length (bucket window hour))"

text \<open>
  A strictly declining synthetic series: 24 hourly points, each of the six features falling
  from 100 by one per hour.
\<close>

definition declining_series :: series where
  "declining_series = map (\<lambda>k. replicate 6 (100 - real k)) [0..<24]"

section \<open>Auxiliary notions for the statements\<close>

text \<open>
  The \<open>past_values\<close> sent to the predictor for a padded series (\<open>enhancedInput\<close>), and the
  value that \<open>makePrediction\<close> binds to \<open>predictions\<close> when the body passes its format tests.
\<close>

definition payload :: "env \<Rightarrow> series \<Rightarrow> jsnum list list" where
  "payload e processedData =
     addWeatherFeatures (map (normalizePoint processedData) processedData) (fetchOpenWeatherData e)"

definition predictions_of :: "jsval \<Rightarrow> jsval" where
  "predictions_of data = (if isArray data then data else property data ''predictions'')"


text \<open>
  A series as the two callers of \<open>makePrediction\<close> build it: every point has the six features
  pm25, pm10, o3, no2, so2, co.
\<close>

definition six_features :: "series \<Rightarrow> bool" where
  "six_features d = list_all (\<lambda>point. length point = 6) d"

text \<open>The forecast point whose AQI and pollutant values are all \<open>NaN\<close>.\<close>

definition NaN_point :: forecast_point where
  "NaN_point =
     \<lparr>aqi = NaN,
      pollutants = \<lparr>pm25 = Some NaN, pm10 = Some NaN, o3 = Some NaN,
                    no2 = Some NaN, so2 = Some NaN, co = Some NaN\<rparr>\<rparr>"

section \<open>Sub-indices at the tabled points\<close>

text \<open>
  C8. The PM2.5 index function maps the concentrations 12.0, 35.4 and 0 to the indices 50,
  100 and 0; the sub-index is the linear interpolation
  \<open>round(((aqiHigh - aqiLow) / (concHigh - concLow)) * (concentration - concLow) + aqiLow)\<close>
  over the segment that holds the concentration, here the segments (0, 12.0, 0, 50) and
  (12.1, 35.4, 51, 100).
\<close>

theorem calculatePM25Index_tabled_points:
  "calculatePM25Index (Num 12.0) = Num 50
   \<and> calculatePM25Index (Num 35.4) = Num 100
   \<and> calculatePM25Index (Num 0) = Num 0
   \<and> linearScale (Num c) concLow concHigh aqiLow aqiHigh =
       Num (of_int (round (((aqiHigh - aqiLow) / (concHigh - concLow)) * (c - concLow) + aqiLow)))
   \<and> calculatePM25Index (Num 12.0) = linearScale (Num 12.0) 0 12.0 0 50
   \<and> calculatePM25Index (Num 35.4) = linearScale (Num 35.4) 12.1 35.4 51 100
   \<and> calculatePM25Index (Num 0) = linearScale (Num 0) 0 12.0 0 50"
  by (simp add: calculatePM25Index_def linearScale_def round_def)


section \<open>The two copies of the index functions\<close>

lemma linearScale_pred_eq: "linearScale_pred = linearScale"
  by (intro ext) (simp only: linearScale_def linearScale_pred_def)

text \<open>
  C7 (as amended). For every concentration, the index functions of the direct-reading path and
  of the forecast path compute the same sub-index for pm25, pm10, o3, so2 and no2. The CO
  functions are left out: the direct-reading path uses adjusted CO thresholds.
\<close>

theorem index_functions_agree_except_CO:
  "calculatePM25Index c = calculatePM25Index_pred c
   \<and> calculatePM10Index c = calculatePM10Index_pred c
   \<and> calculateO3Index c = calculateO3Index_pred c
   \<and> calculateSO2Index c = calculateSO2Index_pred c
   \<and> calculateNO2Index c = calculateNO2Index_pred c"
  unfolding calculatePM25Index_def calculatePM25Index_pred_def
    calculatePM10Index_def calculatePM10Index_pred_def
    calculateO3Index_def calculateO3Index_pred_def
    calculateSO2Index_def calculateSO2Index_pred_def
    calculateNO2Index_def calculateNO2Index_pred_def
    linearScale_pred_eq
  by (intro conjI refl)

text \<open>
  C7 as stated fails for CO: at the concentration 1.0 the direct-reading path gives the
  sub-index 50 and the forecast path gives 11.
\<close>

theorem calculateCOIndex_copies_differ:
  "calculateCOIndex (Num 1.0) = Num 50 \<and> calculateCOIndex_pred (Num 1.0) = Num 11
   \<and> calculateCOIndex (Num 1.0) \<noteq> calculateCOIndex_pred (Num 1.0)"
  by (simp add: calculateCOIndex_def calculateCOIndex_pred_def linearScale_def
      linearScale_pred_def)

section \<open>Monotonicity of the sub-index\<close>

text \<open>
  C10 at a failing input. Between two segments the next segment's line is used below its
  low bound. For O3 the line of the segment (55, 70, 51, 100) is steep enough to fall below
  the 50 reached at 54: the concentrations 54 and 54.1 get the indices 50 and 48. The CO
  function does the same between 1.0 and 1.1.
\<close>

theorem calculateO3Index_not_monotone:
  "calculateO3Index (Num 54) = Num 50 \<and> calculateO3Index (Num 54.1) = Num 48
   \<and> \<not> js_le (calculateO3Index (Num 54)) (calculateO3Index (Num 54.1))"
  by (simp add: calculateO3Index_def linearScale_def)

lemma calculateCOIndex_not_monotone:
  "calculateCOIndex (Num 1.0) = Num 50 \<and> calculateCOIndex (Num 1.05) = Num 48"
  by (simp add: calculateCOIndex_def linearScale_def)

text \<open>
  The index functions for pm25, pm10, so2 and no2 are monotone on the non-negative
  concentrations, gaps included: there the next segment's line, taken below its low bound,
  still rounds to at least the index that the previous segment reaches at its cap.
\<close>

lemma linearScale_mono:
  "(q - p) / (b - a) * (c1 - a) \<le> (q - p) / (b - a) * (c2 - a) \<Longrightarrow>
   js_le (linearScale (Num c1) a b p q) (linearScale (Num c2) a b p q)"
  by (simp add: linearScale_def floor_mono)

lemma js_le_trans: "js_le x y \<Longrightarrow> js_le y z \<Longrightarrow> js_le x z"
  by (cases x; cases y; cases z) simp_all

lemma PM25_upper:
  assumes "0 \<le> c"
  shows "c \<le> 12.0 \<Longrightarrow> js_le (calculatePM25Index (Num c)) (Num 50)"
    and "c \<le> 35.4 \<Longrightarrow> js_le (calculatePM25Index (Num c)) (Num 100)"
    and "c \<le> 55.4 \<Longrightarrow> js_le (calculatePM25Index (Num c)) (Num 150)"
    and "c \<le> 150.4 \<Longrightarrow> js_le (calculatePM25Index (Num c)) (Num 200)"
    and "c \<le> 250.4 \<Longrightarrow> js_le (calculatePM25Index (Num c)) (Num 300)"
    and "c \<le> 350.4 \<Longrightarrow> js_le (calculatePM25Index (Num c)) (Num 400)"
  using assms unfolding calculatePM25Index_def
  by (auto simp: linearScale_def diff_divide_distrib)

lemma PM25_lower:
  shows "12.0 < c \<Longrightarrow> js_le (Num 50) (calculatePM25Index (Num c))"
    and "35.4 < c \<Longrightarrow> js_le (Num 100) (calculatePM25Index (Num c))"
    and "55.4 < c \<Longrightarrow> js_le (Num 150) (calculatePM25Index (Num c))"
    and "150.4 < c \<Longrightarrow> js_le (Num 200) (calculatePM25Index (Num c))"
    and "250.4 < c \<Longrightarrow> js_le (Num 300) (calculatePM25Index (Num c))"
    and "350.4 < c \<Longrightarrow> js_le (Num 400) (calculatePM25Index (Num c))"
  unfolding calculatePM25Index_def
  by (auto simp: linearScale_def diff_divide_distrib)

lemma PM25_same_segment:
  assumes "c1 \<le> c2"
  shows "c2 \<le> 12.0 \<Longrightarrow> js_le (calculatePM25Index (Num c1)) (calculatePM25Index (Num c2))"
    and "12.0 < c1 \<Longrightarrow> c2 \<le> 35.4 \<Longrightarrow> js_le (calculatePM25Index (Num c1)) (calculatePM25Index (Num c2))"
    and "35.4 < c1 \<Longrightarrow> c2 \<le> 55.4 \<Longrightarrow> js_le (calculatePM25Index (Num c1)) (calculatePM25Index (Num c2))"
    and "55.4 < c1 \<Longrightarrow> c2 \<le> 150.4 \<Longrightarrow> js_le (calculatePM25Index (Num c1)) (calculatePM25Index (Num c2))"
    and "150.4 < c1 \<Longrightarrow> c2 \<le> 250.4 \<Longrightarrow> js_le (calculatePM25Index (Num c1)) (calculatePM25Index (Num c2))"
    and "250.4 < c1 \<Longrightarrow> c2 \<le> 350.4 \<Longrightarrow> js_le (calculatePM25Index (Num c1)) (calculatePM25Index (Num c2))"
    and "350.4 < c1 \<Longrightarrow> js_le (calculatePM25Index (Num c1)) (calculatePM25Index (Num c2))"
  using assms unfolding calculatePM25Index_def
  by (auto intro!: linearScale_mono)

lemma calculatePM25Index_mono:
  assumes "0 \<le> c1" and "c1 \<le> c2"
  shows "js_le (calculatePM25Index (Num c1)) (calculatePM25Index (Num c2))"
proof -
  consider "c2 \<le> 12.0"
    | "c1 \<le> 12.0" "12.0 < c2"
    | "12.0 < c1" "c2 \<le> 35.4"
    | "c1 \<le> 35.4" "35.4 < c2"
    | "35.4 < c1" "c2 \<le> 55.4"
    | "c1 \<le> 55.4" "55.4 < c2"
    | "55.4 < c1" "c2 \<le> 150.4"
    | "c1 \<le> 150.4" "150.4 < c2"
    | "150.4 < c1" "c2 \<le> 250.4"
    | "c1 \<le> 250.4" "250.4 < c2"
    | "250.4 < c1" "c2 \<le> 350.4"
    | "c1 \<le> 350.4" "350.4 < c2"
    | "350.4 < c1"
    by linarith
  then show ?thesis
  proof cases
    case 1 then show ?thesis by (rule PM25_same_segment(1) [OF assms(2)])
  next
    case 2 then show ?thesis
      by (blast intro: js_le_trans PM25_upper(1) [OF assms(1)] PM25_lower(1))
  next
    case 3 then show ?thesis by (rule PM25_same_segment(2) [OF assms(2)])
  next
    case 4 then show ?thesis
      by (blast intro: js_le_trans PM25_upper(2) [OF assms(1)] PM25_lower(2))
  next
    case 5 then show ?thesis by (rule PM25_same_segment(3) [OF assms(2)])
  next
    case 6 then show ?thesis
      by (blast intro: js_le_trans PM25_upper(3) [OF assms(1)] PM25_lower(3))
  next
    case 7 then show ?thesis by (rule PM25_same_segment(4) [OF assms(2)])
  next
    case 8 then show ?thesis
      by (blast intro: js_le_trans PM25_upper(4) [OF assms(1)] PM25_lower(4))
  next
    case 9 then show ?thesis by (rule PM25_same_segment(5) [OF assms(2)])
  next
    case 10 then show ?thesis
      by (blast intro: js_le_trans PM25_upper(5) [OF assms(1)] PM25_lower(5))
  next
    case 11 then show ?thesis by (rule PM25_same_segment(6) [OF assms(2)])
  next
    case 12 then show ?thesis
      by (blast intro: js_le_trans PM25_upper(6) [OF assms(1)] PM25_lower(6))
  next
    case 13 then show ?thesis by (rule PM25_same_segment(7) [OF assms(2)])
  qed
qed

lemma PM10_upper:
  assumes "0 \<le> c"
  shows "c \<le> 54 \<Longrightarrow> js_le (calculatePM10Index (Num c)) (Num 50)"
    and "c \<le> 154 \<Longrightarrow> js_le (calculatePM10Index (Num c)) (Num 100)"
    and "c \<le> 254 \<Longrightarrow> js_le (calculatePM10Index (Num c)) (Num 150)"
    and "c \<le> 354 \<Longrightarrow> js_le (calculatePM10Index (Num c)) (Num 200)"
    and "c \<le> 424 \<Longrightarrow> js_le (calculatePM10Index (Num c)) (Num 300)"
    and "c \<le> 504 \<Longrightarrow> js_le (calculatePM10Index (Num c)) (Num 400)"
  using assms unfolding calculatePM10Index_def
  by (auto simp: linearScale_def diff_divide_distrib)

lemma PM10_lower:
  shows "54 < c \<Longrightarrow> js_le (Num 50) (calculatePM10Index (Num c))"
    and "154 < c \<Longrightarrow> js_le (Num 100) (calculatePM10Index (Num c))"
    and "254 < c \<Longrightarrow> js_le (Num 150) (calculatePM10Index (Num c))"
    and "354 < c \<Longrightarrow> js_le (Num 200) (calculatePM10Index (Num c))"
    and "424 < c \<Longrightarrow> js_le (Num 300) (calculatePM10Index (Num c))"
    and "504 < c \<Longrightarrow> js_le (Num 400) (calculatePM10Index (Num c))"
  unfolding calculatePM10Index_def
  by (auto simp: linearScale_def diff_divide_distrib)

lemma PM10_same_segment:
  assumes "c1 \<le> c2"
  shows "c2 \<le> 54 \<Longrightarrow> js_le (calculatePM10Index (Num c1)) (calculatePM10Index (Num c2))"
    and "54 < c1 \<Longrightarrow> c2 \<le> 154 \<Longrightarrow> js_le (calculatePM10Index (Num c1)) (calculatePM10Index (Num c2))"
    and "154 < c1 \<Longrightarrow> c2 \<le> 254 \<Longrightarrow> js_le (calculatePM10Index (Num c1)) (calculatePM10Index (Num c2))"
    and "254 < c1 \<Longrightarrow> c2 \<le> 354 \<Longrightarrow> js_le (calculatePM10Index (Num c1)) (calculatePM10Index (Num c2))"
    and "354 < c1 \<Longrightarrow> c2 \<le> 424 \<Longrightarrow> js_le (calculatePM10Index (Num c1)) (calculatePM10Index (Num c2))"
    and "424 < c1 \<Longrightarrow> c2 \<le> 504 \<Longrightarrow> js_le (calculatePM10Index (Num c1)) (calculatePM10Index (Num c2))"
    and "504 < c1 \<Longrightarrow> js_le (calculatePM10Index (Num c1)) (calculatePM10Index (Num c2))"
  using assms unfolding calculatePM10Index_def
  by (auto intro!: linearScale_mono)

lemma calculatePM10Index_mono:
  assumes "0 \<le> c1" and "c1 \<le> c2"
  shows "js_le (calculatePM10Index (Num c1)) (calculatePM10Index (Num c2))"
proof -
  consider "c2 \<le> 54"
    | "c1 \<le> 54" "54 < c2"
    | "54 < c1" "c2 \<le> 154"
    | "c1 \<le> 154" "154 < c2"
    | "154 < c1" "c2 \<le> 254"
    | "c1 \<le> 254" "254 < c2"
    | "254 < c1" "c2 \<le> 354"
    | "c1 \<le> 354" "354 < c2"
    | "354 < c1" "c2 \<le> 424"
    | "c1 \<le> 424" "424 < c2"
    | "424 < c1" "c2 \<le> 504"
    | "c1 \<le> 504" "504 < c2"
    | "504 < c1"
    by linarith
  then show ?thesis
  proof cases
    case 1 then show ?thesis by (rule PM10_same_segment(1) [OF assms(2)])
  next
    case 2 then show ?thesis
      by (blast intro: js_le_trans PM10_upper(1) [OF assms(1)] PM10_lower(1))
  next
    case 3 then show ?thesis by (rule PM10_same_segment(2) [OF assms(2)])
  next
    case 4 then show ?thesis
      by (blast intro: js_le_trans PM10_upper(2) [OF assms(1)] PM10_lower(2))
  next
    case 5 then show ?thesis by (rule PM10_same_segment(3) [OF assms(2)])
  next
    case 6 then show ?thesis
      by (blast intro: js_le_trans PM10_upper(3) [OF assms(1)] PM10_lower(3))
  next
    case 7 then show ?thesis by (rule PM10_same_segment(4) [OF assms(2)])
  next
    case 8 then show ?thesis
      by (blast intro: js_le_trans PM10_upper(4) [OF assms(1)] PM10_lower(4))
  next
    case 9 then show ?thesis by (rule PM10_same_segment(5) [OF assms(2)])
  next
    case 10 then show ?thesis
      by (blast intro: js_le_trans PM10_upper(5) [OF assms(1)] PM10_lower(5))
  next
    case 11 then show ?thesis by (rule PM10_same_segment(6) [OF assms(2)])
  next
    case 12 then show ?thesis
      by (blast intro: js_le_trans PM10_upper(6) [OF assms(1)] PM10_lower(6))
  next
    case 13 then show ?thesis by (rule PM10_same_segment(7) [OF assms(2)])
  qed
qed

lemma SO2_upper:
  assumes "0 \<le> c"
  shows "c \<le> 35 \<Longrightarrow> js_le (calculateSO2Index (Num c)) (Num 50)"
    and "c \<le> 75 \<Longrightarrow> js_le (calculateSO2Index (Num c)) (Num 100)"
    and "c \<le> 185 \<Longrightarrow> js_le (calculateSO2Index (Num c)) (Num 150)"
    and "c \<le> 304 \<Longrightarrow> js_le (calculateSO2Index (Num c)) (Num 200)"
    and "c \<le> 604 \<Longrightarrow> js_le (calculateSO2Index (Num c)) (Num 300)"
    and "c \<le> 804 \<Longrightarrow> js_le (calculateSO2Index (Num c)) (Num 400)"
  using assms unfolding calculateSO2Index_def
  by (auto simp: linearScale_def diff_divide_distrib)

lemma SO2_lower:
  shows "35 < c \<Longrightarrow> js_le (Num 50) (calculateSO2Index (Num c))"
    and "75 < c \<Longrightarrow> js_le (Num 100) (calculateSO2Index (Num c))"
    and "185 < c \<Longrightarrow> js_le (Num 150) (calculateSO2Index (Num c))"
    and "304 < c \<Longrightarrow> js_le (Num 200) (calculateSO2Index (Num c))"
    and "604 < c \<Longrightarrow> js_le (Num 300) (calculateSO2Index (Num c))"
    and "804 < c \<Longrightarrow> js_le (Num 400) (calculateSO2Index (Num c))"
  unfolding calculateSO2Index_def
  by (auto simp: linearScale_def diff_divide_distrib)

lemma SO2_same_segment:
  assumes "c1 \<le> c2"
  shows "c2 \<le> 35 \<Longrightarrow> js_le (calculateSO2Index (Num c1)) (calculateSO2Index (Num c2))"
    and "35 < c1 \<Longrightarrow> c2 \<le> 75 \<Longrightarrow> js_le (calculateSO2Index (Num c1)) (calculateSO2Index (Num c2))"
    and "75 < c1 \<Longrightarrow> c2 \<le> 185 \<Longrightarrow> js_le (calculateSO2Index (Num c1)) (calculateSO2Index (Num c2))"
    and "185 < c1 \<Longrightarrow> c2 \<le> 304 \<Longrightarrow> js_le (calculateSO2Index (Num c1)) (calculateSO2Index (Num c2))"
    and "304 < c1 \<Longrightarrow> c2 \<le> 604 \<Longrightarrow> js_le (calculateSO2Index (Num c1)) (calculateSO2Index (Num c2))"
    and "604 < c1 \<Longrightarrow> c2 \<le> 804 \<Longrightarrow> js_le (calculateSO2Index (Num c1)) (calculateSO2Index (Num c2))"
    and "804 < c1 \<Longrightarrow> js_le (calculateSO2Index (Num c1)) (calculateSO2Index (Num c2))"
  using assms unfolding calculateSO2Index_def
  by (auto intro!: linearScale_mono)

lemma calculateSO2Index_mono:
  assumes "0 \<le> c1" and "c1 \<le> c2"
  shows "js_le (calculateSO2Index (Num c1)) (calculateSO2Index (Num c2))"
proof -
  consider "c2 \<le> 35"
    | "c1 \<le> 35" "35 < c2"
    | "35 < c1" "c2 \<le> 75"
    | "c1 \<le> 75" "75 < c2"
    | "75 < c1" "c2 \<le> 185"
    | "c1 \<le> 185" "185 < c2"
    | "185 < c1" "c2 \<le> 304"
    | "c1 \<le> 304" "304 < c2"
    | "304 < c1" "c2 \<le> 604"
    | "c1 \<le> 604" "604 < c2"
    | "604 < c1" "c2 \<le> 804"
    | "c1 \<le> 804" "804 < c2"
    | "804 < c1"
    by linarith
  then show ?thesis
  proof cases
    case 1 then show ?thesis by (rule SO2_same_segment(1) [OF assms(2)])
  next
    case 2 then show ?thesis
      by (blast intro: js_le_trans SO2_upper(1) [OF assms(1)] SO2_lower(1))
  next
    case 3 then show ?thesis by (rule SO2_same_segment(2) [OF assms(2)])
  next
    case 4 then show ?thesis
      by (blast intro: js_le_trans SO2_upper(2) [OF assms(1)] SO2_lower(2))
  next
    case 5 then show ?thesis by (rule SO2_same_segment(3) [OF assms(2)])
  next
    case 6 then show ?thesis
      by (blast intro: js_le_trans SO2_upper(3) [OF assms(1)] SO2_lower(3))
  next
    case 7 then show ?thesis by (rule SO2_same_segment(4) [OF assms(2)])
  next
    case 8 then show ?thesis
      by (blast intro: js_le_trans SO2_upper(4) [OF assms(1)] SO2_lower(4))
  next
    case 9 then show ?thesis by (rule SO2_same_segment(5) [OF assms(2)])
  next
    case 10 then show ?thesis
      by (blast intro: js_le_trans SO2_upper(5) [OF assms(1)] SO2_lower(5))
  next
    case 11 then show ?thesis by (rule SO2_same_segment(6) [OF assms(2)])
  next
    case 12 then show ?thesis
      by (blast intro: js_le_trans SO2_upper(6) [OF assms(1)] SO2_lower(6))
  next
    case 13 then show ?thesis by (rule SO2_same_segment(7) [OF assms(2)])
  qed
qed

lemma NO2_upper:
  assumes "0 \<le> c"
  shows "c \<le> 53 \<Longrightarrow> js_le (calculateNO2Index (Num c)) (Num 50)"
    and "c \<le> 100 \<Longrightarrow> js_le (calculateNO2Index (Num c)) (Num 100)"
    and "c \<le> 360 \<Longrightarrow> js_le (calculateNO2Index (Num c)) (Num 150)"
    and "c \<le> 649 \<Longrightarrow> js_le (calculateNO2Index (Num c)) (Num 200)"
    and "c \<le> 1249 \<Longrightarrow> js_le (calculateNO2Index (Num c)) (Num 300)"
    and "c \<le> 1649 \<Longrightarrow> js_le (calculateNO2Index (Num c)) (Num 400)"
  using assms unfolding calculateNO2Index_def
  by (auto simp: linearScale_def diff_divide_distrib)

lemma NO2_lower:
  shows "53 < c \<Longrightarrow> js_le (Num 50) (calculateNO2Index (Num c))"
    and "100 < c \<Longrightarrow> js_le (Num 100) (calculateNO2Index (Num c))"
    and "360 < c \<Longrightarrow> js_le (Num 150) (calculateNO2Index (Num c))"
    and "649 < c \<Longrightarrow> js_le (Num 200) (calculateNO2Index (Num c))"
    and "1249 < c \<Longrightarrow> js_le (Num 300) (calculateNO2Index (Num c))"
    and "1649 < c \<Longrightarrow> js_le (Num 400) (calculateNO2Index (Num c))"
  unfolding calculateNO2Index_def
  by (auto simp: linearScale_def diff_divide_distrib)

lemma NO2_same_segment:
  assumes "c1 \<le> c2"
  shows "c2 \<le> 53 \<Longrightarrow> js_le (calculateNO2Index (Num c1)) (calculateNO2Index (Num c2))"
    and "53 < c1 \<Longrightarrow> c2 \<le> 100 \<Longrightarrow> js_le (calculateNO2Index (Num c1)) (calculateNO2Index (Num c2))"
    and "100 < c1 \<Longrightarrow> c2 \<le> 360 \<Longrightarrow> js_le (calculateNO2Index (Num c1)) (calculateNO2Index (Num c2))"
    and "360 < c1 \<Longrightarrow> c2 \<le> 649 \<Longrightarrow> js_le (calculateNO2Index (Num c1)) (calculateNO2Index (Num c2))"
    and "649 < c1 \<Longrightarrow> c2 \<le> 1249 \<Longrightarrow> js_le (calculateNO2Index (Num c1)) (calculateNO2Index (Num c2))"
    and "1249 < c1 \<Longrightarrow> c2 \<le> 1649 \<Longrightarrow> js_le (calculateNO2Index (Num c1)) (calculateNO2Index (Num c2))"
    and "1649 < c1 \<Longrightarrow> js_le (calculateNO2Index (Num c1)) (calculateNO2Index (Num c2))"
  using assms unfolding calculateNO2Index_def
  by (auto intro!: linearScale_mono)

lemma calculateNO2Index_mono:
  assumes "0 \<le> c1" and "c1 \<le> c2"
  shows "js_le (calculateNO2Index (Num c1)) (calculateNO2Index (Num c2))"
proof -
  consider "c2 \<le> 53"
    | "c1 \<le> 53" "53 < c2"
    | "53 < c1" "c2 \<le> 100"
    | "c1 \<le> 100" "100 < c2"
    | "100 < c1" "c2 \<le> 360"
    | "c1 \<le> 360" "360 < c2"
    | "360 < c1" "c2 \<le> 649"
    | "c1 \<le> 649" "649 < c2"
    | "649 < c1" "c2 \<le> 1249"
    | "c1 \<le> 1249" "1249 < c2"
    | "1249 < c1" "c2 \<le> 1649"
    | "c1 \<le> 1649" "1649 < c2"
    | "1649 < c1"
    by linarith
  then show ?thesis
  proof cases
    case 1 then show ?thesis by (rule NO2_same_segment(1) [OF assms(2)])
  next
    case 2 then show ?thesis
      by (blast intro: js_le_trans NO2_upper(1) [OF assms(1)] NO2_lower(1))
  next
    case 3 then show ?thesis by (rule NO2_same_segment(2) [OF assms(2)])
  next
    case 4 then show ?thesis
      by (blast intro: js_le_trans NO2_upper(2) [OF assms(1)] NO2_lower(2))
  next
    case 5 then show ?thesis by (rule NO2_same_segment(3) [OF assms(2)])
  next
    case 6 then show ?thesis
      by (blast intro: js_le_trans NO2_upper(3) [OF assms(1)] NO2_lower(3))
  next
    case 7 then show ?thesis by (rule NO2_same_segment(4) [OF assms(2)])
  next
    case 8 then show ?thesis
      by (blast intro: js_le_trans NO2_upper(4) [OF assms(1)] NO2_lower(4))
  next
    case 9 then show ?thesis by (rule NO2_same_segment(5) [OF assms(2)])
  next
    case 10 then show ?thesis
      by (blast intro: js_le_trans NO2_upper(5) [OF assms(1)] NO2_lower(5))
  next
    case 11 then show ?thesis by (rule NO2_same_segment(6) [OF assms(2)])
  next
    case 12 then show ?thesis
      by (blast intro: js_le_trans NO2_upper(6) [OF assms(1)] NO2_lower(6))
  next
    case 13 then show ?thesis by (rule NO2_same_segment(7) [OF assms(2)])
  qed
qed

section \<open>Aggregation\<close>

lemma foldl_Math_max_Num:
  "\<forall>x \<in> set xs. x \<noteq> NaN \<Longrightarrow> \<exists>m. foldl Math_max (Num a) xs = Num m \<and> a \<le> m
      \<and> (Num m = Num a \<or> Num m \<in> set xs) \<and> (\<forall>x \<in> set xs. js_le x (Num m))"
proof (induction xs arbitrary: a)
  case Nil
  then show ?case by simp
next
  case (Cons x xs)
  then obtain b where b: "x = Num b" by (cases x) auto
  from Cons.prems have "\<forall>y \<in> set xs. y \<noteq> NaN" by simp
  from Cons.IH [OF this, of "max a b"]
  obtain m where m: "foldl Math_max (Num (max a b)) xs = Num m" "max a b \<le> m"
    "Num m = Num (max a b) \<or> Num m \<in> set xs" "\<forall>y \<in> set xs. js_le y (Num m)"
    by blast
  show ?case
    using m b by (auto simp: max_def split: if_splits)
qed

lemma max_of_indices_is_max:
  assumes "\<forall>x \<in> set xs. x \<noteq> NaN" and "xs \<noteq> []"
  shows "max_of_indices xs \<in> set xs \<and> (\<forall>x \<in> set xs. js_le x (max_of_indices xs))"
proof -
  from assms obtain y ys where xs: "xs = y # ys" by (cases xs) auto
  with assms obtain a where a: "y = Num a" by (cases y) auto
  from assms xs have "\<forall>x \<in> set ys. x \<noteq> NaN" by simp
  from foldl_Math_max_Num [OF this, of a] show ?thesis
    using xs a by auto
qed

lemma max_sub_index_of_list:
  assumes "set xs = sub_index ix p ` S" and "\<forall>x \<in> set xs. x \<noteq> NaN"
  shows "max_sub_index ix S p (max_of_indices xs)"
proof (cases "S = {}")
  case True
  with assms have "xs = []" by simp
  with True show ?thesis by (simp add: max_sub_index_def)
next
  case False
  with assms have "xs \<noteq> []" by auto
  from max_of_indices_is_max [OF assms(2) this] assms(1) False
  show ?thesis by (auto simp: max_sub_index_def)
qed

lemma linearScale_Num: "linearScale (Num c) a b p q \<noteq> NaN"
  by (simp add: linearScale_def)

lemma linearScale_pred_Num: "linearScale_pred (Num c) a b p q \<noteq> NaN"
  by (simp add: linearScale_pred_def)

lemma indexFor_Num: "indexFor k (Num c) \<noteq> NaN"
  by (cases k) (simp_all add: calculatePM25Index_def calculatePM10Index_def calculateO3Index_def
      calculateCOIndex_def calculateSO2Index_def calculateNO2Index_def linearScale_Num)

lemma indexFor_pred_Num: "indexFor_pred k (Num c) \<noteq> NaN"
  by (cases k) (simp_all add: calculatePM25Index_pred_def calculatePM10Index_pred_def
      calculateO3Index_pred_def calculateCOIndex_pred_def calculateSO2Index_pred_def
      calculateNO2Index_pred_def linearScale_pred_Num)

lemma set_push_if_positive:
  "set (push_if_positive (indexFor k) (field_of k p)) = (if k \<in> measured p then {sub_index indexFor p k} else {})"
  by (auto simp: push_if_positive_def measured_def sub_index_def split: option.splits)

lemma set_push_if_present:
  "set (push_if_present (indexFor_pred k) (field_of k p)) = (if k \<in> present p then {sub_index indexFor_pred p k} else {})"
  by (auto simp: push_if_present_def present_def sub_index_def split: option.splits)

lemma UNIV_pollutant: "(UNIV :: pollutant set) = {PM25, PM10, O3, CO, SO2, NO2}"
  using pollutant.exhaust by auto

lemma set_calculateAQI_indices: "set (calculateAQI_indices p) = sub_index indexFor p ` measured p"
proof -
  have "set (calculateAQI_indices p) = (\<Union>k \<in> UNIV. set (push_if_positive (indexFor k) (field_of k p)))"
    unfolding UNIV_pollutant calculateAQI_indices_def by auto
  also have "\<dots> = sub_index indexFor p ` measured p"
    unfolding set_push_if_positive by auto
  finally show ?thesis .
qed

lemma set_calculateAQIFromPollutants_indices:
  "set (calculateAQIFromPollutants_indices p) = sub_index indexFor_pred p ` present p"
proof -
  have "set (calculateAQIFromPollutants_indices p) = (\<Union>k \<in> UNIV. set (push_if_present (indexFor_pred k) (field_of k p)))"
    unfolding UNIV_pollutant calculateAQIFromPollutants_indices_def by auto
  also have "\<dots> = sub_index indexFor_pred p ` present p"
    unfolding set_push_if_present by auto
  finally show ?thesis .
qed

lemma calculateAQI_rule: "max_sub_index indexFor (measured p) p (calculateAQI p)"
proof -
  have "\<forall>x \<in> set (calculateAQI_indices p). x \<noteq> NaN"
  proof
    fix x assume "x \<in> set (calculateAQI_indices p)"
    then obtain k where k: "k \<in> measured p" "x = sub_index indexFor p k"
      unfolding set_calculateAQI_indices by auto
    then obtain v where "field_of k p = Some v" "js_gt v (Num 0)"
      by (auto simp: measured_def)
    then obtain c where "field_of k p = Some (Num c)" by (cases v) auto
    with k show "x \<noteq> NaN" by (simp add: sub_index_def indexFor_Num)
  qed
  from max_sub_index_of_list [OF set_calculateAQI_indices this]
  show ?thesis by (simp add: calculateAQI_def)
qed

lemma calculateAQIFromPollutants_present:
  assumes "all_numbers p"
  shows "max_sub_index indexFor_pred (present p) p (calculateAQIFromPollutants p)"
proof -
  have "\<forall>x \<in> set (calculateAQIFromPollutants_indices p). x \<noteq> NaN"
  proof
    fix x assume "x \<in> set (calculateAQIFromPollutants_indices p)"
    then obtain k where k: "k \<in> present p" "x = sub_index indexFor_pred p k"
      unfolding set_calculateAQIFromPollutants_indices by auto
    then obtain v where v: "field_of k p = Some v"
      by (auto simp: present_def)
    with assms have "v \<noteq> NaN" by (auto simp: all_numbers_def)
    then obtain c where "v = Num c" by (cases v) auto
    with k v show "x \<noteq> NaN" by (simp add: sub_index_def indexFor_pred_Num)
  qed
  from max_sub_index_of_list [OF set_calculateAQIFromPollutants_indices this]
  show ?thesis by (simp add: calculateAQIFromPollutants_def)
qed

lemma linearScale_pred_nonneg:
  "0 \<le> (q - p) / (b - a) * (c - a) + p + 1 / 2 \<Longrightarrow> js_le (Num 0) (linearScale_pred (Num c) a b p q)"
  by (simp add: linearScale_pred_def)

lemma indexFor_pred_nonneg: "0 \<le> c \<Longrightarrow> js_le (Num 0) (indexFor_pred k (Num c))"
  by (cases k) (auto simp add: calculatePM25Index_pred_def calculatePM10Index_pred_def
      calculateO3Index_pred_def calculateCOIndex_pred_def calculateSO2Index_pred_def
      calculateNO2Index_pred_def diff_divide_distrib intro!: linearScale_pred_nonneg)

lemma indexFor_pred_zero: "indexFor_pred k (Num 0) = Num 0"
  by (cases k) (auto simp add: calculatePM25Index_pred_def calculatePM10Index_pred_def
      calculateO3Index_pred_def calculateCOIndex_pred_def calculateSO2Index_pred_def
      calculateNO2Index_pred_def linearScale_pred_def)

lemma calculateAQIFromPollutants_rule:
  assumes nn: "all_non_negative p"
  shows "max_sub_index indexFor_pred (measured p) p (calculateAQIFromPollutants p)"
proof -
  let ?r = "calculateAQIFromPollutants p"
  have num: "all_numbers p"
    using nn by (fastforce simp: all_numbers_def all_non_negative_def)
  note pres = calculateAQIFromPollutants_present [OF num]
  have sub_nonneg: "js_le (Num 0) (sub_index indexFor_pred p k)" if "k \<in> present p" for k
  proof -
    from that obtain v where v: "field_of k p = Some v" by (auto simp: present_def)
    with nn have "js_le (Num 0) v" by (auto simp: all_non_negative_def)
    then obtain c where "v = Num c" "0 \<le> c" by (cases v) auto
    with v show ?thesis by (simp add: sub_index_def indexFor_pred_nonneg)
  qed
  have sub_zero: "sub_index indexFor_pred p k = Num 0" if "k \<in> present p" "k \<notin> measured p" for k
  proof -
    from that obtain v where v: "field_of k p = Some v" "\<not> js_gt v (Num 0)"
      by (auto simp: present_def measured_def)
    with nn have "js_le (Num 0) v" by (auto simp: all_non_negative_def)
    with v have "v = Num 0" by (cases v) auto
    with v show ?thesis by (simp add: sub_index_def indexFor_pred_zero)
  qed
  have sub: "measured p \<subseteq> present p" by (auto simp: measured_def present_def)
  show ?thesis
  proof (cases "measured p = {}")
    case True
    have "?r = Num 0"
    proof (cases "present p = {}")
      case True
      with pres show ?thesis by (simp add: max_sub_index_def)
    next
      case False
      with pres obtain k where "k \<in> present p" "?r = sub_index indexFor_pred p k"
        by (auto simp: max_sub_index_def)
      with sub_zero [of k] True show ?thesis by simp
    qed
    with True show ?thesis by (simp add: max_sub_index_def)
  next
    case False
    then obtain k1 where k1: "k1 \<in> measured p" by auto
    with sub have ne: "present p \<noteq> {}" by auto
    with pres have ex: "\<exists>k \<in> present p. ?r = sub_index indexFor_pred p k"
      and ub: "\<forall>k \<in> present p. js_le (sub_index indexFor_pred p k) ?r"
      by (simp_all add: max_sub_index_def)
    from ex obtain k0 where k0: "k0 \<in> present p" "?r = sub_index indexFor_pred p k0"
      by blast
    have "\<exists>k \<in> measured p. ?r = sub_index indexFor_pred p k"
    proof (cases "k0 \<in> measured p")
      case True
      with k0 show ?thesis by auto
    next
      case False
      with k0 sub_zero have r0: "?r = Num 0" by simp
      from k1 sub have "k1 \<in> present p" by auto
      with ub sub_nonneg [of k1] r0 have "sub_index indexFor_pred p k1 = Num 0"
        by (cases "sub_index indexFor_pred p k1") auto
      with r0 have "?r = sub_index indexFor_pred p k1" by simp
      with k1 show ?thesis by blast
    qed
    with ub sub False show ?thesis by (auto simp: max_sub_index_def)
  qed
qed

lemma forall_pollutant: "(\<forall>k. P k) = (P PM25 \<and> P PM10 \<and> P O3 \<and> P CO \<and> P SO2 \<and> P NO2)"
  by (metis pollutant.exhaust)

lemma foldl_Math_max_NaN: "foldl Math_max NaN xs = NaN"
  by (induction xs) simp_all

lemma foldl_Math_max_has_NaN: "NaN \<in> set xs \<Longrightarrow> foldl Math_max a xs = NaN"
proof (induction xs arbitrary: a)
  case Nil
  then show ?case by simp
next
  case (Cons x xs)
  show ?case
  proof (cases "x = NaN")
    case True
    then have "Math_max a x = NaN" by (cases a) simp_all
    then show ?thesis by (simp add: foldl_Math_max_NaN)
  next
    case False
    with Cons.prems have "NaN \<in> set xs" by simp
    from Cons.IH [OF this] show ?thesis by simp
  qed
qed

lemma max_of_indices_has_NaN: "NaN \<in> set xs \<Longrightarrow> max_of_indices xs = NaN"
proof (cases xs)
  case Nil
  assume "NaN \<in> set xs"
  with Nil show ?thesis by simp
next
  case (Cons x ys)
  assume "NaN \<in> set xs"
  with Cons show ?thesis
    by (cases "x = NaN") (auto simp: foldl_Math_max_NaN foldl_Math_max_has_NaN)
qed

lemma indexFor_pred_NaN: "indexFor_pred k NaN = NaN"
  by (cases k) (simp_all add: calculatePM25Index_pred_def calculatePM10Index_pred_def
      calculateO3Index_pred_def calculateCOIndex_pred_def calculateSO2Index_pred_def
      calculateNO2Index_pred_def linearScale_pred_def)

lemma calculateAQIFromPollutants_has_NaN:
  assumes "\<not> all_numbers p"
  shows "calculateAQIFromPollutants p = NaN"
proof -
  from assms obtain k where k: "field_of k p = Some NaN"
    by (auto simp: all_numbers_def)
  then have "k \<in> present p" by (simp add: present_def)
  moreover from k have "sub_index indexFor_pred p k = NaN"
    by (simp add: sub_index_def indexFor_pred_NaN)
  ultimately have "NaN \<in> set (calculateAQIFromPollutants_indices p)"
    unfolding set_calculateAQIFromPollutants_indices by force
  then show ?thesis
    by (simp add: calculateAQIFromPollutants_def max_of_indices_has_NaN)
qed

text \<open>
  C1 (as amended). On the direct-reading path, for every reading, \<open>calculateAQI\<close> returns the
  maximum of the sub-indices of exactly those pollutants that are present with a value
  strictly greater than zero, and 0 when there is none. On the forecast path
  \<open>calculateAQIFromPollutants\<close> skips only a value that is absent: for a reading whose present
  values are non-negative numbers it returns the maximum of the sub-indices of the
  pollutants with a value strictly greater than zero, and 0 when there is none, as on the
  direct-reading path (in general, for present values that are numbers, the maximum over all
  present pollutants); a present value \<open>NaN\<close> is not skipped and makes the result \<open>NaN\<close>.
  Neither function averages or sums.
\<close>

theorem aggregate_inclusion_rules:
  "max_sub_index indexFor (measured p) p (calculateAQI p)
   \<and> (all_non_negative p \<longrightarrow>
        max_sub_index indexFor_pred (measured p) p (calculateAQIFromPollutants p))
   \<and> (all_numbers p \<longrightarrow>
        max_sub_index indexFor_pred (present p) p (calculateAQIFromPollutants p))
   \<and> (\<not> all_numbers p \<longrightarrow> calculateAQIFromPollutants p = NaN)"
  using calculateAQI_rule calculateAQIFromPollutants_present calculateAQIFromPollutants_rule
    calculateAQIFromPollutants_has_NaN
  by blast

theorem aggregate_inclusion_rules_witness:
  "all_numbers \<lparr>pm25 = Some (Num 10), pm10 = None, o3 = Some (Num 60), no2 = None, so2 = Some (Num 0), co = None\<rparr>
   \<and> all_non_negative \<lparr>pm25 = Some (Num 10), pm10 = None, o3 = Some (Num 60), no2 = None, so2 = Some (Num 0), co = None\<rparr>
   \<and> measured \<lparr>pm25 = Some (Num 10), pm10 = None, o3 = Some (Num 60), no2 = None, so2 = Some (Num 0), co = None\<rparr> = {PM25, O3}
   \<and> calculateAQI \<lparr>pm25 = Some (Num 10), pm10 = None, o3 = Some (Num 60), no2 = None, so2 = Some (Num 0), co = None\<rparr> = Num 67
   \<and> max_sub_index indexFor_pred {PM25, O3}
        \<lparr>pm25 = Some (Num 10), pm10 = None, o3 = Some (Num 60), no2 = None, so2 = Some (Num 0), co = None\<rparr>
        (calculateAQIFromPollutants \<lparr>pm25 = Some (Num 10), pm10 = None, o3 = Some (Num 60), no2 = None, so2 = Some (Num 0), co = None\<rparr>)
   \<and> \<not> all_numbers \<lparr>pm25 = Some NaN, pm10 = Some (Num 20), o3 = None, no2 = None, so2 = None, co = None\<rparr>
   \<and> calculateAQIFromPollutants \<lparr>pm25 = Some NaN, pm10 = Some (Num 20), o3 = None, no2 = None, so2 = None, co = None\<rparr> = NaN"
proof -
  let ?p = "\<lparr>pm25 = Some (Num 10), pm10 = None, o3 = Some (Num 60), no2 = None, so2 = Some (Num 0), co = None\<rparr>"
  let ?q = "\<lparr>pm25 = Some NaN, pm10 = Some (Num 20), o3 = None, no2 = None, so2 = None, co = None\<rparr>"
  have nn: "all_non_negative ?p" by (simp add: all_non_negative_def forall_pollutant)
  have num: "all_numbers ?p" by (simp add: all_numbers_def forall_pollutant)
  have "k \<in> measured ?p \<longleftrightarrow> k \<in> {PM25, O3}" for k
    by (cases k) (simp_all add: measured_def)
  then have m: "measured ?p = {PM25, O3}" by blast
  have v: "calculateAQI ?p = Num 67"
    by (simp add: calculateAQI_def calculateAQI_indices_def push_if_positive_def
        calculatePM25Index_def calculateO3Index_def linearScale_def)
  have nan: "\<not> all_numbers ?q" by (simp add: all_numbers_def forall_pollutant)
  from aggregate_inclusion_rules [of ?q] nan
  have "calculateAQIFromPollutants ?q = NaN" by blast
  with aggregate_inclusion_rules [of ?p] nn num m v nan show ?thesis by simp
qed


section \<open>Normalisation and its inverse\<close>

text \<open>
  For a non-empty series all of whose points have the feature \<open>i\<close>, the fitted \<open>mins[i]\<close> and
  \<open>maxs[i]\<close> are the least and the greatest value of the feature in the series.
\<close>

lemma fold_min_eq_Min:
  "\<forall>p \<in> set ps. i < length p \<Longrightarrow>
   fold (\<lambda>point m. if i < length point then min m (point ! i) else m) ps (m::real)
     = Min (insert m ((\<lambda>p. p ! i) ` set ps))"
proof (induction ps arbitrary: m)
  case Nil
  show ?case by simp
next
  case (Cons p ps)
  then have "fold (\<lambda>point m. if i < length point then min m (point ! i) else m) (p # ps) m
      = Min (insert (min m (p ! i)) ((\<lambda>p. p ! i) ` set ps))"
    by simp
  also have "\<dots> = Min (insert m (insert (p ! i) ((\<lambda>p. p ! i) ` set ps)))"
    by (cases "ps = []") (simp_all add: min.assoc)
  finally show ?case by (simp add: insert_commute)
qed

lemma fold_max_eq_Max:
  "\<forall>p \<in> set ps. i < length p \<Longrightarrow>
   fold (\<lambda>point m. if i < length point then max m (point ! i) else m) ps (m::real)
     = Max (insert m ((\<lambda>p. p ! i) ` set ps))"
proof (induction ps arbitrary: m)
  case Nil
  show ?case by simp
next
  case (Cons p ps)
  then have "fold (\<lambda>point m. if i < length point then max m (point ! i) else m) (p # ps) m
      = Max (insert (max m (p ! i)) ((\<lambda>p. p ! i) ` set ps))"
    by simp
  also have "\<dots> = Max (insert m (insert (p ! i) ((\<lambda>p. p ! i) ` set ps)))"
    by (cases "ps = []") (simp_all add: max.assoc)
  finally show ?case by (simp add: insert_commute)
qed

lemma feature_min_is_Min:
  assumes "data \<noteq> []" and "\<forall>p \<in> set data. i < length p"
  shows "feature_min data i = Min ((\<lambda>p. p ! i) ` set data)"
proof -
  from assms(1) obtain p0 ps where d: "data = p0 # ps" by (cases data) auto
  with assms(2) have "\<forall>p \<in> set ps. i < length p" by simp
  from fold_min_eq_Min [OF this, of "p0 ! i"] d show ?thesis
    by (simp add: feature_min_def)
qed

lemma feature_max_is_Max:
  assumes "data \<noteq> []" and "\<forall>p \<in> set data. i < length p"
  shows "feature_max data i = Max ((\<lambda>p. p ! i) ` set data)"
proof -
  from assms(1) obtain p0 ps where d: "data = p0 # ps" by (cases data) auto
  with assms(2) have "\<forall>p \<in> set ps. i < length p" by simp
  from fold_max_eq_Max [OF this, of "p0 ! i"] d show ?thesis
    by (simp add: feature_max_def)
qed


lemma fold_max_ge_init:
  "m \<le> fold (\<lambda>point m. if i < length point then max m (point ! i) else m) ps (m::real)"
proof (induction ps arbitrary: m)
  case Nil
  show ?case by simp
next
  case (Cons p ps)
  have "m \<le> (if i < length p then max m (p ! i) else m)" by simp
  also have "\<dots> \<le> fold (\<lambda>point m. if i < length point then max m (point ! i) else m) ps
      (if i < length p then max m (p ! i) else m)"
    by (rule Cons.IH)
  finally show ?case by simp
qed

lemma fold_max_ge_elem:
  "p \<in> set ps \<Longrightarrow> i < length p \<Longrightarrow>
   p ! i \<le> fold (\<lambda>point m. if i < length point then max m (point ! i) else m) ps (m::real)"
proof (induction ps arbitrary: m)
  case Nil
  then show ?case by simp
next
  case (Cons q ps)
  show ?case
  proof (cases "p = q")
    case True
    have "p ! i \<le> max m (p ! i)" by simp
    also have "\<dots> \<le> fold (\<lambda>point m. if i < length point then max m (point ! i) else m) ps (max m (p ! i))"
      by (rule fold_max_ge_init)
    finally show ?thesis using True Cons.prems by simp
  next
    case False
    with Cons.prems have "p \<in> set ps" by simp
    from Cons.IH [OF this Cons.prems(2)] show ?thesis by simp
  qed
qed

lemma feature_max_ge:
  assumes "j < length data" and "i < length (data ! j)"
  shows "data ! j ! i \<le> feature_max data i"
proof (cases data)
  case Nil
  with assms show ?thesis by simp
next
  case (Cons p0 ps)
  show ?thesis
  proof (cases j)
    case 0
    with Cons show ?thesis by (simp add: feature_max_def fold_max_ge_init)
  next
    case (Suc j')
    with assms Cons have "data ! j \<in> set ps" by simp
    from fold_max_ge_elem [OF this assms(2)] Cons show ?thesis
      by (simp add: feature_max_def)
  qed
qed

lemma normalizePoint_nth:
  "i < length point \<Longrightarrow> i < length (hd data) \<Longrightarrow>
   normalizePoint data point ! i =
     (if feature_min data i = feature_max data i then Num 0
      else Num ((point ! i - feature_min data i) / (feature_max data i - feature_min data i)))"
  by (simp add: normalizePoint_def)

lemma length_normalizePoint: "length (normalizePoint data point) = length point"
  by (simp add: normalizePoint_def)

lemma denormalizePoint_nth:
  "i < length vals \<Longrightarrow> i < length (hd data) \<Longrightarrow>
   denormalizePoint sn data vals ! i =
     (if feature_min data i = feature_max data i then Num (feature_min data i)
      else Math_max (Num 0)
             (Math_min (js_add (js_mul (toNumber sn (vals ! i))
                                       (Num (feature_max data i - feature_min data i)))
                               (Num (feature_min data i)))
                       (Num (feature_max data i * 2))))"
  by (simp add: denormalizePoint_def Let_def)

lemma denormalizeData_array_of_points:
  "data \<noteq> [] \<Longrightarrow>
   denormalizeData sn (array_of_points nd) data =
     Inr (map (\<lambda>point. denormalizePoint sn data (map Number point)) nd)"
  by (cases data) (simp_all add: denormalizeData_def array_of_points_def list_all_iff comp_def)

text \<open>
  C3 (as amended). For every non-empty series, \<open>normalizeData\<close> and \<open>denormalizeData\<close> return,
  and for every feature whose fitted minimum differs from its maximum, denormalising the
  normalised value of a non-negative value \<open>x\<close> of that feature in the series gives \<open>x\<close> back
  (over the reals, so with no rounding error); for a feature whose minimum equals its
  maximum the normalised value is 0 and the denormalised one is the minimum.
\<close>

theorem normalize_roundtrip:
  assumes "data \<noteq> []"
  shows "\<exists>nd dd. normalizeData data = Inr nd
           \<and> denormalizeData sn (array_of_points nd) data = Inr dd
           \<and> length nd = length data \<and> length dd = length data
           \<and> (\<forall>j < length data. \<forall>i < min (length (data ! 0)) (length (data ! j)).
                 (feature_min data i \<noteq> feature_max data i \<and> 0 \<le> data ! j ! i
                    \<longrightarrow> dd ! j ! i = Num (data ! j ! i))
               \<and> (feature_min data i = feature_max data i
                    \<longrightarrow> nd ! j ! i = Num 0 \<and> dd ! j ! i = Num (feature_min data i)))"
proof -
  let ?nd = "map (normalizePoint data) data"
  let ?dd = "map (\<lambda>point. denormalizePoint sn data (map Number point)) ?nd"
  have n: "normalizeData data = Inr ?nd"
    using assms by (cases data) (simp_all add: normalizeData_def)
  have d: "denormalizeData sn (array_of_points ?nd) data = Inr ?dd"
    by (rule denormalizeData_array_of_points [OF assms])
  have hd0: "hd data = data ! 0" using assms by (simp add: hd_conv_nth)
  have main: "(feature_min data i \<noteq> feature_max data i \<and> 0 \<le> data ! j ! i
                    \<longrightarrow> ?dd ! j ! i = Num (data ! j ! i))
               \<and> (feature_min data i = feature_max data i
                    \<longrightarrow> ?nd ! j ! i = Num 0 \<and> ?dd ! j ! i = Num (feature_min data i))"
    if j: "j < length data" and i: "i < min (length (data ! 0)) (length (data ! j))" for j i
  proof -
    from i have i0: "i < length (hd data)" and ij: "i < length (data ! j)"
      by (simp_all add: hd0)
    have le: "data ! j ! i \<le> feature_max data i" by (rule feature_max_ge [OF j ij])
    have ndji: "?nd ! j ! i = (if feature_min data i = feature_max data i then Num 0
      else Num ((data ! j ! i - feature_min data i) / (feature_max data i - feature_min data i)))"
      using j ij i0 by (simp add: normalizePoint_nth)
    have ddji: "?dd ! j ! i = (if feature_min data i = feature_max data i then Num (feature_min data i)
      else Math_max (Num 0)
             (Math_min (js_add (js_mul (toNumber sn (Number (?nd ! j ! i)))
                                       (Num (feature_max data i - feature_min data i)))
                               (Num (feature_min data i)))
                       (Num (feature_max data i * 2))))"
      using j ij i0 by (simp add: denormalizePoint_nth length_normalizePoint)
    show ?thesis
    proof (cases "feature_min data i = feature_max data i")
      case True
      then show ?thesis using ndji ddji by simp
    next
      case False
      then have nz: "feature_max data i - feature_min data i \<noteq> 0" by simp
      have "?dd ! j ! i = Num (data ! j ! i)" if "0 \<le> data ! j ! i"
        using that le False nz ddji ndji by (simp add: max_def min_def)
      with False show ?thesis by simp
    qed
  qed
  show ?thesis
    using n d main by (intro exI [of _ ?nd] exI [of _ ?dd]) simp
qed

theorem normalize_roundtrip_witness:
  "[[1, 5], [3, 5 :: real]] \<noteq> []
   \<and> (\<exists>nd dd. normalizeData [[1, 5], [3, 5]] = Inr nd
           \<and> denormalizeData (\<lambda>s. NaN) (array_of_points nd) [[1, 5], [3, 5]] = Inr dd
           \<and> length nd = length [[1, 5], [3, 5 :: real]]
           \<and> length dd = length [[1, 5], [3, 5 :: real]]
           \<and> (\<forall>j < length [[1, 5], [3, 5 :: real]].
                \<forall>i < min (length ([[1, 5], [3, 5 :: real]] ! 0)) (length ([[1, 5], [3, 5 :: real]] ! j)).
                 (feature_min [[1, 5], [3, 5]] i \<noteq> feature_max [[1, 5], [3, 5]] i
                    \<and> 0 \<le> [[1, 5], [3, 5 :: real]] ! j ! i
                    \<longrightarrow> dd ! j ! i = Num ([[1, 5], [3, 5]] ! j ! i))
               \<and> (feature_min [[1, 5], [3, 5]] i = feature_max [[1, 5], [3, 5]] i
                    \<longrightarrow> nd ! j ! i = Num 0 \<and> dd ! j ! i = Num (feature_min [[1, 5], [3, 5]] i))))"
proof -
  have ne: "[[1, 5], [3, 5 :: real]] \<noteq> []" by simp
  from normalize_roundtrip [OF ne, of "\<lambda>s. NaN"] ne show ?thesis by blast
qed

text \<open>
  C3 as stated fails for a negative value: in the series \<open>[[-1], [1]]\<close> the feature has the
  minimum -1 and the maximum 1, the value -1 is normalised to 0, and 0 is denormalised to
  \<open>Math.max(0, Math.min(-1, 2)) = 0\<close>.
\<close>

theorem normalize_roundtrip_counterexample:
  "feature_min [[- 1], [1]] 0 = - 1 \<and> feature_max [[- 1], [1]] 0 = 1
   \<and> normalizeData [[- 1], [1]] = Inr [[Num 0], [Num 1]]
   \<and> denormalizeData (\<lambda>s. NaN) (array_of_points [[Num 0], [Num 1]]) [[- 1], [1]]
       = Inr [[Num 0], [Num 1]]
   \<and> Num 0 \<noteq> Num (- 1)"
  by (simp add: normalizeData_def normalizePoint_def feature_min_def feature_max_def
      denormalizeData_def denormalizePoint_def array_of_points_def)

section \<open>The fallback forecaster\<close>

text \<open>The conversion of a row of numbers agrees with \<open>ToNumber\<close> on the array of these numbers.\<close>

lemma toNumber_numbers: "toNumber sn (Array (map Number ns)) = numbers_toNumber ns"
  by (cases ns rule: numbers_toNumber.cases) simp_all

lemma length_dataToUse_of: "24 \<le> length (dataToUse_of d)"
  by (simp add: dataToUse_of_def Let_def)

lemma six_features_dataToUse_of:
  assumes "six_features d"
  shows "six_features (dataToUse_of d)"
proof -
  have "length p = 6" if "p \<in> set (drop n d)" for p n
    using that assms set_drop_subset [of n d] by (auto simp: six_features_def list_all_iff)
  moreover have "length (d ! (i mod length d)) = 6" if "length d \<noteq> 0" for i
    using that assms by (simp add: six_features_def list_all_iff)
  ultimately show ?thesis
    by (auto simp: dataToUse_of_def Let_def six_features_def list_all_iff)
qed

lemma fold_max_length_const:
  "list_all (\<lambda>point. length point = n) ps \<Longrightarrow> fold (\<lambda>point w. max w (length point)) ps n = n"
  by (induction ps) simp_all

lemma six_features_bucket: "six_features data \<Longrightarrow> six_features (bucket data hour)"
  by (auto simp: six_features_def bucket_def list_all_iff)

lemma six_features_nth0: "six_features data \<Longrightarrow> data \<noteq> [] \<Longrightarrow> length (data ! 0) = 6"
  by (cases data) (simp_all add: six_features_def)

lemma length_hourlyAverages:
  assumes "six_features data" and "data \<noteq> []"
  shows "length (hourlyAverages data hour) = 6"
  using six_features_bucket [OF assms(1), of hour] six_features_nth0 [OF assms]
  by (simp add: hourlyAverages_def Let_def six_features_def fold_max_length_const)

lemma numbers_toNumber_long: "2 \<le> length ns \<Longrightarrow> numbers_toNumber ns = NaN"
  by (cases ns rule: numbers_toNumber.cases) simp_all

lemma hourlyCount_pos:
  assumes "24 \<le> length data" and "hour < 24"
  shows "hourlyCount data hour \<noteq> 0"
proof -
  from assms have "hour \<in> set (filter (\<lambda>idx. idx mod 24 = hour) [0..<length data])" by simp
  then have "filter (\<lambda>idx. idx mod 24 = hour) [0..<length data] \<noteq> []" by force
  then show ?thesis by (simp add: hourlyCount_def bucket_def)
qed

lemma map_upt_const: "(\<And>i. i < n \<Longrightarrow> f i = c) \<Longrightarrow> map f [0..<n] = replicate n c"
  by (simp add: list_eq_iff_nth_eq)

lemma extractDailyPatterns_NaN:
  assumes six: "six_features data" and len: "24 \<le> length data"
  shows "extractDailyPatterns data = replicate 24 (replicate 6 NaN)"
proof -
  from len have ne: "data \<noteq> []" by auto
  note l = length_hourlyAverages [OF six ne]
  have row: "map (\<lambda>i. let total = hourlyAverages data hour ! i in
                   if hourlyCount data hour = 0 then Num 0
                   else
                     let hourlyAverage = js_div total (Num (real (hourlyCount data hour)))
                     in js_sub hourlyAverage
                          (if i < 24 then numbers_toNumber (hourlyAverages data i) else NaN))
                [0..<length (hourlyAverages data hour)] = replicate 6 NaN"
    if "hour < 24" for hour
    unfolding l
    by (rule map_upt_const) (simp add: hourlyCount_pos [OF len that] numbers_toNumber_long l Let_def)
  show ?thesis
    unfolding extractDailyPatterns_def by (rule map_upt_const) (rule row)
qed

lemma js_add_NaN: "js_add x NaN = NaN"
  by (cases x) simp_all

lemma predictedPollutants_NaN:
  assumes "six_features dataToUse" and "24 \<le> length dataToUse"
  shows "predictedPollutants hours rnd dataToUse (Some (extractDailyPatterns dataToUse)) hour
           = replicate 6 NaN"
proof -
  from assms have ne: "dataToUse \<noteq> []" by auto
  have n: "length (dataToUse ! 0) = 6" by (rule six_features_nth0 [OF assms(1) ne])
  have h: "(hours + hour) mod 24 < 24" by simp
  show ?thesis
    unfolding predictedPollutants_def extractDailyPatterns_NaN [OF assms] n Let_def
    by (rule map_upt_const) (simp add: elem_def h js_add_NaN)
qed

lemma linearScale_pred_NaN: "linearScale_pred NaN a b p q = NaN"
  by (simp add: linearScale_pred_def)

lemma calculateAQIFromPollutants_NaN:
  "calculateAQIFromPollutants \<lparr>pm25 = Some NaN, pm10 = Some NaN, o3 = Some NaN,
                    no2 = Some NaN, so2 = Some NaN, co = Some NaN\<rparr> = NaN"
  by (simp add: calculateAQIFromPollutants_def calculateAQIFromPollutants_indices_def
      push_if_present_def
      calculatePM25Index_pred_def calculatePM10Index_pred_def calculateO3Index_pred_def
      calculateCOIndex_pred_def calculateSO2Index_pred_def calculateNO2Index_pred_def
      linearScale_pred_NaN)

lemma destructure_NaN:
  "destructure (replicate 6 NaN) = \<lparr>pm25 = Some NaN, pm10 = Some NaN, o3 = Some NaN,
                    no2 = Some NaN, so2 = Some NaN, co = Some NaN\<rparr>"
  by (simp add: destructure_def nth_or_undefined_def)

lemma generateFallbackPrediction_NaN:
  assumes "six_features d"
  shows "generateFallbackPrediction hours rnd d = replicate 24 NaN_point"
proof -
  note six = six_features_dataToUse_of [OF assms]
  note len = length_dataToUse_of [of d]
  show ?thesis
    unfolding generateFallbackPrediction_def Let_def
    by (simp add: len predictedPollutants_NaN [OF six len] calculateAQIFromPollutants_NaN
        destructure_NaN NaN_point_def map_replicate_const)
qed

lemma six_features_declining: "six_features declining_series"
  by (simp add: six_features_def declining_series_def list_all_iff)

lemma length_declining: "length declining_series = 24"
  by (simp add: declining_series_def)

lemma bucket_declining_0: "bucket declining_series 0 = [replicate 6 100]"
  by (simp add: bucket_def declining_series_def upt_rec [of _ "numeral k" for k])


text \<open>
  C2 at a failing input. On the strictly declining series of 24 points the fallback
  forecaster returns 24 forecast points, and in each of them the AQI and all six pollutant
  values are \<open>NaN\<close>, whatever the hour and the random numbers: the daily pattern added to
  every prediction is \<open>NaN\<close>, and \<open>Math.max(0, NaN)\<close> is \<open>NaN\<close>. The same holds for every
  series of six-feature points (\<open>generateFallbackPrediction_NaN\<close>).
\<close>

theorem fallback_on_declining_series:
  "generateFallbackPrediction hours rnd declining_series = replicate 24 NaN_point
   \<and> length (generateFallbackPrediction hours rnd declining_series) = 24"
  by (simp add: generateFallbackPrediction_NaN [OF six_features_declining])

text \<open>
  C5 at a failing input. For the window of the 24 points of the declining series, the daily
  pattern that \<open>extractDailyPatterns\<close> computes is \<open>NaN\<close> for every hour and feature: the
  code subtracts \<open>hourlyAverages[i]\<close>, a row of six sums, where the overall mean of the
  feature is meant. The average deviation of the bucket of hour 0 from the overall mean of
  feature 0 is 100 - 88.5 = 11.5.
\<close>

theorem daily_pattern_of_declining_series:
  "extractDailyPatterns declining_series = replicate 24 (replicate 6 NaN)
   \<and> daily_pattern_spec declining_series 0 0 = 23 / 2"
proof -
  have "extractDailyPatterns declining_series = replicate 24 (replicate 6 NaN)"
    by (rule extractDailyPatterns_NaN [OF six_features_declining]) (simp add: length_declining)
  moreover have "daily_pattern_spec declining_series 0 0 = 23 / 2"
    by (simp add: daily_pattern_spec_def bucket_declining_0)
       (simp add: overall_mean_def declining_series_def upt_rec [of _ "numeral k" for k])
  ultimately show ?thesis by simp
qed

text \<open>
  C1 as stated fails on the forecast path, at a reading that the code hands to
  \<open>calculateAQIFromPollutants\<close>: the fallback forecaster builds, for the declining series,
  the reading whose six values are \<open>NaN\<close>. None of its values is strictly greater than zero,
  so the stated rule gives 0, and \<open>calculateAQIFromPollutants\<close> returns \<open>NaN\<close>.
\<close>

theorem forecast_aggregate_NaN_counterexample:
  "pollutants (generateFallbackPrediction 0 (\<lambda>k. 0) declining_series ! 0)
     = \<lparr>pm25 = Some NaN, pm10 = Some NaN, o3 = Some NaN, no2 = Some NaN, so2 = Some NaN, co = Some NaN\<rparr>
   \<and> measured \<lparr>pm25 = Some NaN, pm10 = Some NaN, o3 = Some NaN, no2 = Some NaN, so2 = Some NaN, co = Some NaN\<rparr> = {}
   \<and> calculateAQIFromPollutants
        \<lparr>pm25 = Some NaN, pm10 = Some NaN, o3 = Some NaN, no2 = Some NaN, so2 = Some NaN, co = Some NaN\<rparr> = NaN
   \<and> \<not> max_sub_index indexFor_pred
        (measured \<lparr>pm25 = Some NaN, pm10 = Some NaN, o3 = Some NaN, no2 = Some NaN, so2 = Some NaN, co = Some NaN\<rparr>)
        \<lparr>pm25 = Some NaN, pm10 = Some NaN, o3 = Some NaN, no2 = Some NaN, so2 = Some NaN, co = Some NaN\<rparr>
        (calculateAQIFromPollutants
           \<lparr>pm25 = Some NaN, pm10 = Some NaN, o3 = Some NaN, no2 = Some NaN, so2 = Some NaN, co = Some NaN\<rparr>)"
proof -
  let ?p = "\<lparr>pm25 = Some NaN, pm10 = Some NaN, o3 = Some NaN, no2 = Some NaN, so2 = Some NaN, co = Some NaN\<rparr>"
  have r: "pollutants (generateFallbackPrediction 0 (\<lambda>k. 0) declining_series ! 0) = ?p"
    by (simp add: generateFallbackPrediction_NaN [OF six_features_declining] NaN_point_def)
  have "k \<notin> measured ?p" for k
    by (cases k) (simp_all add: measured_def)
  then have m: "measured ?p = {}" by blast
  note v = calculateAQIFromPollutants_NaN
  show ?thesis unfolding r m v by (simp add: max_sub_index_def)
qed


section \<open>The prediction pipeline\<close>

lemma unshift_copies_eq: "unshift_copies n v d = replicate n v @ d"
  by (induction n arbitrary: d) (simp_all add: replicate_app_Cons_same)

lemma pad_short:
  "length d < 24 \<Longrightarrow>
   pad d = replicate (24 - length d) (if d = [] then [0, 0, 0, 0, 0, 0] else d ! 0) @ d"
  by (simp add: pad_def unshift_copies_eq)

lemma pad_long: "24 \<le> length d \<Longrightarrow> pad d = d"
  by (simp add: pad_def)

lemma length_pad: "length (pad d) = max 24 (length d)"
  by (cases "length d < 24") (simp_all add: pad_short pad_long)

lemma pad_not_Nil: "pad d \<noteq> []"
proof
  assume "pad d = []"
  then have "length (pad d) = 0" by simp
  then show False by (simp add: length_pad)
qed

lemma normalizeData_pad: "normalizeData (pad d) = Inr (map (normalizePoint (pad d)) (pad d))"
  using pad_not_Nil [of d] by (cases "pad d") (simp_all add: normalizeData_def)

lemma length_generateFallbackPrediction: "length (generateFallbackPrediction h rnd d) = 24"
  by (simp add: generateFallbackPrediction_def Let_def)

lemma fst_makePrediction: "fst (makePrediction e d) = pad d"
  by (simp add: makePrediction_def Let_def)

lemma snd_makePrediction:
  "snd (makePrediction e d) =
     (case remotePrediction e (pad d) of
        Inl err \<Rightarrow> generateFallbackPrediction (getHours e) (random e) (pad d)
      | Inr r \<Rightarrow> r)"
  by (simp add: makePrediction_def Let_def)


lemma denormalizeData_TypeError:
  "denormalizeData sn v pd = Inl err \<Longrightarrow> err = TypeError"
  by (cases pd; cases v) (simp_all add: denormalizeData_def split: if_splits)

lemma denormalizeData_Inr_length:
  "denormalizeData sn v pd = Inr r \<Longrightarrow> \<exists>points. v = Array points \<and> length r = length points"
  by (cases pd; cases v) (auto simp add: denormalizeData_def split: if_splits)


lemma convertPredictions_Inr_length:
  "convertPredictions e v pd = Inr r \<Longrightarrow> \<exists>points. v = Array points \<and> length r = length points"
  by (auto simp add: convertPredictions_def split: sum.splits dest: denormalizeData_Inr_length)

lemma remotePrediction_pad:
  "remotePrediction e (pad d) =
     (if \<not> HF_API_KEY e then Inl (Error ''Hugging Face API key missing'')
      else case post e (payload e (pad d)) of
             Rejected \<Rightarrow> Inl AxiosError
           | Response data \<Rightarrow>
               if \<not> truthy data \<or> \<not> typeof_object data
               then Inl (Error ''Invalid response format from prediction API'')
               else if isArray data \<or> truthy (property data ''predictions'')
               then convertPredictions e (predictions_of data) (pad d)
               else Inl (Error ''Unrecognized prediction API response format''))"
  by (simp add: remotePrediction_def normalizeData_pad payload_def predictions_of_def Let_def
      split: response.splits)







lemma makePrediction_long_series_unchanged: "24 \<le> length d \<Longrightarrow> fst (makePrediction e d) = d"
  by (simp add: fst_makePrediction pad_long)

text \<open>
  C9 at a failing input. After a call with a series of two points the caller's array holds
  24 points: 22 copies of the first point have been put in front of it by \<open>unshift\<close>. Only a
  series of at least 24 points is left as it was (\<open>makePrediction_long_series_unchanged\<close>).
\<close>

theorem makePrediction_modifies_short_series:
  "fst (makePrediction e [[1, 2, 3, 4, 5, 6], [2, 3, 4, 5, 6, 7]])
     = replicate 22 [1, 2, 3, 4, 5, 6] @ [[1, 2, 3, 4, 5, 6], [2, 3, 4, 5, 6, 7]]
   \<and> fst (makePrediction e [[1, 2, 3, 4, 5, 6], [2, 3, 4, 5, 6, 7]])
     \<noteq> [[1, 2, 3, 4, 5, 6], [2, 3, 4, 5, 6, 7]]"
proof -
  have "fst (makePrediction e [[1, 2, 3, 4, 5, 6], [2, 3, 4, 5, 6, 7]])
     = replicate 22 [1, 2, 3, 4, 5, 6] @ [[1, 2, 3, 4, 5, 6], [2, 3, 4, 5, 6, 7]]"
    by (simp add: fst_makePrediction pad_short)
  moreover have "length (replicate 22 [1, 2, 3, 4, 5, 6 :: real] @ [[1, 2, 3, 4, 5, 6], [2, 3, 4, 5, 6, 7]])
     \<noteq> length [[1, 2, 3, 4, 5, 6 :: real], [2, 3, 4, 5, 6, 7]]"
    by simp
  ultimately show ?thesis by metis
qed

lemma convertPredictions_empty: "pd \<noteq> [] \<Longrightarrow> convertPredictions e (Array []) pd = Inr []"
  by (cases pd) (simp_all add: convertPredictions_def denormalizeData_def)





text \<open>
  C6 (as amended). For every series of length less than 24, \<open>makePrediction\<close> pads the series
  at the front with copies of its earliest point (with zero vectors if it is empty) up to the
  length 24 and returns a forecast without raising. The forecast has 24 points when the
  fallback is used; otherwise it has as many points as the predictor's reply has vectors.
\<close>

theorem short_series_is_padded:
  assumes "length d < 24"
  shows "pad d = replicate (24 - length d) (if d = [] then [0, 0, 0, 0, 0, 0] else d ! 0) @ d
     \<and> length (pad d) = 24
     \<and> ((\<exists>err. remotePrediction e (pad d) = Inl err) \<longrightarrow>
          length (snd (makePrediction e d)) = 24)
     \<and> (\<forall>r. remotePrediction e (pad d) = Inr r \<longrightarrow>
          snd (makePrediction e d) = r
          \<and> (\<exists>data points. post e (payload e (pad d)) = Response data
                \<and> predictions_of data = Array points \<and> length r = length points))"
proof -
  have "\<exists>data points. post e (payload e (pad d)) = Response data
                \<and> predictions_of data = Array points \<and> length r = length points"
    if "remotePrediction e (pad d) = Inr r" for r
    using that convertPredictions_Inr_length
    by (simp add: remotePrediction_pad split: if_splits response.splits)
  then show ?thesis
    using assms
    by (auto simp: pad_short snd_makePrediction length_generateFallbackPrediction)
qed

theorem short_series_is_padded_witness:
  "length (replicate 10 [1, 2, 3, 4, 5, 6 :: real]) < 24
   \<and> pad (replicate 10 [1, 2, 3, 4, 5, 6]) = replicate 24 [1, 2, 3, 4, 5, 6]
   \<and> length (pad (replicate 10 [1, 2, 3, 4, 5, 6])) = 24
   \<and> remotePrediction \<lparr>fetchOpenWeatherData = None, HF_API_KEY = True, post = (\<lambda>past_values. Rejected),
            getHours = 0, random = (\<lambda>k. 0), stringToNumber = (\<lambda>s. NaN)\<rparr>
        (pad (replicate 10 [1, 2, 3, 4, 5, 6])) = Inl AxiosError
   \<and> length (snd (makePrediction \<lparr>fetchOpenWeatherData = None, HF_API_KEY = True,
            post = (\<lambda>past_values. Rejected),
            getHours = 0, random = (\<lambda>k. 0), stringToNumber = (\<lambda>s. NaN)\<rparr>
        (replicate 10 [1, 2, 3, 4, 5, 6]))) = 24"
proof -
  let ?e = "\<lparr>fetchOpenWeatherData = None, HF_API_KEY = True, post = (\<lambda>past_values. Rejected),
            getHours = 0, random = (\<lambda>k. 0), stringToNumber = (\<lambda>s. NaN)\<rparr>"
  let ?d = "replicate 10 [1, 2, 3, 4, 5, 6 :: real]"
  have short: "length ?d < 24" by simp
  have b: "remotePrediction ?e (pad ?d) = Inl AxiosError"
    by (simp add: remotePrediction_pad)
  have "replicate 14 [1, 2, 3, 4, 5, 6 :: real] @ replicate 10 [1, 2, 3, 4, 5, 6]
          = replicate 24 [1, 2, 3, 4, 5, 6]"
    by (simp add: replicate_add [symmetric])
  with short_series_is_padded [OF short, of ?e] b short show ?thesis
    by simp
qed

text \<open>
  C6 as stated fails when the predictor answers a series of length 10 with an empty array:
  the forecast returned has no point.
\<close>

theorem short_series_forecast_counterexample:
  "length (replicate 10 [1, 2, 3, 4, 5, 6 :: real]) < 24
   \<and> snd (makePrediction \<lparr>fetchOpenWeatherData = None, HF_API_KEY = True,
            post = (\<lambda>past_values. Response (Array [])),
            getHours = 0, random = (\<lambda>k. 0), stringToNumber = (\<lambda>s. NaN)\<rparr>
        (replicate 10 [1, 2, 3, 4, 5, 6])) = []
   \<and> length (snd (makePrediction \<lparr>fetchOpenWeatherData = None, HF_API_KEY = True,
            post = (\<lambda>past_values. Response (Array [])),
            getHours = 0, random = (\<lambda>k. 0), stringToNumber = (\<lambda>s. NaN)\<rparr>
        (replicate 10 [1, 2, 3, 4, 5, 6]))) \<noteq> 24"
  by (simp add: snd_makePrediction remotePrediction_pad predictions_of_def
      convertPredictions_empty pad_not_Nil)


end
